theory Spec2Isabelle
  imports Main "HOL-Library.AList"
begin

section \<open>Entities\<close>

text \<open>
  The client of \<^verbatim>\<open>client.js\<close> keeps users, chats and messages in
  \<^verbatim>\<open>Collection\<close>s (JavaScript \<^verbatim>\<open>Map\<close>s: unique keys, iteration in
  insertion order). A collection is an association list; \<^verbatim>\<open>set\<close> on a key that is
  present replaces the value where it stands, otherwise it appends.
\<close>

type_synonym ('k, 'v) collection = "('k \<times> 'v) list"

definition coll_has :: "('k, 'v) collection \<Rightarrow> 'k \<Rightarrow> bool" where
  "coll_has c k = (map_of c k \<noteq> None)"

definition coll_get :: "('k, 'v) collection \<Rightarrow> 'k \<Rightarrow> 'v option" where
  "coll_get c k = map_of c k"

definition coll_set :: "'k \<Rightarrow> 'v \<Rightarrow> ('k, 'v) collection \<Rightarrow> ('k, 'v) collection" where
  "coll_set k v c = AList.update k v c"

definition coll_size :: "('k, 'v) collection \<Rightarrow> nat" where
  "coll_size c = length c"

definition coll_find :: "('v \<Rightarrow> bool) \<Rightarrow> ('k, 'v) collection \<Rightarrow> 'v option" where
  "coll_find P c = List.find P (map snd c)"

definition coll_keys :: "('k, 'v) collection \<Rightarrow> 'k set" where
  "coll_keys c = fst ` set c"

record user =
  user_id :: string
  username :: string

record like =
  like_userID :: string

record message =
  message_id :: string
  message_chatID :: string
  message_content :: string
  message_likes :: "like list"

record chat =
  chat_id :: string
  chat_name :: "string option"
  chat_users :: "(string, user) collection"
  chat_adminUserIDs :: "string list"
  chat_calling :: bool
  chat_messages :: "(string, message) collection"
  chat_pending :: bool

text \<open>
  A member collection as the \<^verbatim>\<open>Chat\<close> class is expected to build it: unique keys,
  every user stored under its own id.
\<close>

definition keyed_by_id :: "(string, user) collection \<Rightarrow> bool" where
  "keyed_by_id us = (distinct (map fst us) \<and> list_all (\<lambda>(k, u). user_id u = k) us)"

section \<open>Inbound data and emitted events\<close>

record topic =
  topic_id :: string
  topic_path :: string

record patch_op =
  op_kind :: string
  op_path :: string
  op_value :: string

text \<open>
  What \<^verbatim>\<open>JSON.parse\<close> gives for a realtime payload, as far as the handler reads it.
  The handler calls \<^verbatim>\<open>forEach\<close> on the decoded value, then on the \<^verbatim>\<open>data\<close> property
  of each element, and reads \<^verbatim>\<open>op\<close>, \<^verbatim>\<open>path\<close> and \<^verbatim>\<open>value\<close> of each entry of
  \<^verbatim>\<open>data\<close>:
  \<^item> \<open>NotArray\<close> is a decoded value that is not an array (\<^verbatim>\<open>{}\<close>, \<^verbatim>\<open>null\<close>, a number,
    a string), on which \<^verbatim>\<open>forEach\<close> is not a function;
  \<^item> \<open>NoDataList\<close> is an element that is \<^verbatim>\<open>null\<close> or whose \<^verbatim>\<open>data\<close> is missing or not
    an array;
  \<^item> \<open>NullEntry\<close> is an entry of \<^verbatim>\<open>data\<close> that is \<^verbatim>\<open>null\<close>, of which no property can
    be read. An entry of any other shape without a string \<^verbatim>\<open>op\<close> is an operation of an
    unknown kind.
\<close>

datatype entry = NullEntry | Entry patch_op

datatype raw_message = NoDataList | DataList "entry list"

datatype batch = NotArray | Batch "raw_message list"

record push =
  pushCategory :: "string option"
  sourceUserId :: "string option"
  actionParams_id :: "string option"
  push_message :: string

text \<open>
  JavaScript truthiness of an optional string property: a missing property and the empty
  string are falsy.
\<close>

definition truthy :: "string option \<Rightarrow> bool" where
  "truthy v = (case v of None \<Rightarrow> False | Some s \<Rightarrow> s \<noteq> [])"

datatype event =
    Connected
  | RawRealtime topic string
  | RawFbns push
  | MessageCreate message
  | MessageDelete message
  | LikeAdd user message
  | LikeRemove user message
  | ChatNameUpdate chat "string option" "string option"
  | ChatUserAdd chat user
  | ChatUserRemove chat user
  | CallStart chat
  | CallEnd chat
  | ChatAdminAdd chat user
  | ChatAdminRemove chat user
  | NewFollower user
  | FollowRequest user
  | PendingRequest chat
  | LiveNotification push
  | Push push

datatype js_error = SyntaxError | TypeError | FetchError

section \<open>Collaborators\<close>

text \<open>
  Modelled from the spec: the classes \<^verbatim>\<open>Chat\<close>, \<^verbatim>\<open>User\<close>, \<^verbatim>\<open>Message\<close> and the
  module \<^verbatim>\<open>Util\<close> are required by \<^verbatim>\<open>client.js\<close> but are not part of the sources at
  hand, and the network calls go through \<^verbatim>\<open>instagram-private-api\<close>. They are the
  parameters of the model, collected in one record; \<open>'j\<close> is the type of decoded JSON
  payloads.
  \<^item> The path matchers return the identifiers they extract, or \<open>None\<close> for no match
    (the client calls each matcher twice, once to test and once to extract).
  \<^item> \<open>JSON_parse\<close> and \<open>parse_batch\<close> are \<^verbatim>\<open>JSON.parse\<close> on a patch value and on a
    realtime payload; \<open>None\<close> stands for the \<^verbatim>\<open>SyntaxError\<close> it throws. A payload
    that parses gives a \<open>batch\<close>, of any of the shapes above.
  \<^item> \<open>new_Chat\<close>, \<open>Chat_patch\<close> and their siblings are the constructors and the
    \<^verbatim>\<open>_patch\<close> methods. They are taken to touch the entity they build or merge only,
    and \<^verbatim>\<open>_patch\<close> to replace fields rather than to mutate a nested collection in
    place, so that the shallow snapshot the client takes before a merge keeps the
    values from before the merge (section 4.2 of the spec).
  \<^item> A network call answers \<open>None\<close> when its promise rejects.
\<close>

record 'j env =
  matchInboxThreadPath :: "string \<Rightarrow> string option"
  matchMessagePath :: "string \<Rightarrow> string option"
  matchAdminPath :: "string \<Rightarrow> (string \<times> string) option"
  isMessageValid :: "message \<Rightarrow> bool"
  isID :: "string \<Rightarrow> bool"
  JSON_parse :: "string \<Rightarrow> 'j option"
  parse_batch :: "string \<Rightarrow> batch option"
  new_Chat :: "string \<Rightarrow> 'j \<Rightarrow> chat"
  Chat_patch :: "'j \<Rightarrow> chat \<Rightarrow> chat"
  new_Message :: "string \<Rightarrow> 'j \<Rightarrow> message"
  Message_patch :: "'j \<Rightarrow> message \<Rightarrow> message"
  new_User :: "'j \<Rightarrow> user"
  item_id :: "'j \<Rightarrow> string"
  item_type :: "'j \<Rightarrow> string"
  thread_id :: "'j \<Rightarrow> string"
  directThread :: "string \<Rightarrow> 'j option"
  directPending :: "'j list option"
  user_info :: "string \<Rightarrow> 'j option"
  getIdByUsername :: "string \<Rightarrow> string option"

section \<open>Client state\<close>

text \<open>
  Chats are objects shared by reference: the same \<^verbatim>\<open>Chat\<close> can sit in
  \<^verbatim>\<open>cache.chats\<close> and in \<^verbatim>\<open>cache.pendingChats\<close>, and a promise callback keeps the
  object it was resolved with. So chats live in a heap (a list, an address is an index)
  and the two caches map thread ids to addresses.

  A promise callback does not run where it is registered: it is queued and runs after
  the synchronous code. The callbacks the client registers are the constructors of
  \<open>chat_then\<close> and \<open>user_then\<close>; \<open>jobs\<close> is the queue of callbacks and of network
  requests in flight. A rejected promise that nothing handles is recorded in
  \<open>unhandled\<close>.
\<close>

datatype chat_then =
    ThenReturnChat
  | ThenMessageReplace string
  | ThenAdminAdd string
  | ThenMessageAdd string string
  | ThenAdminRemove string
  | ThenMessageRemove string

datatype user_then =
    ThenReturnUser
  | ThenLikeRemove message
  | ThenLikeAdd message
  | ThenChatAdminAdd nat
  | ThenChatAdminRemove nat
  | ThenNewFollower
  | ThenFollowRequest

datatype task =
    ChatReady nat chat_then
  | ChatCreateRequest string chat_then
  | ChatRefreshRequest string chat_then
  | UserReady user user_then
  | UserInfoRequest string user_then
  | UserIdRequest string user_then
  | PendingThreadsRequest string

datatype replay_entry =
    Realtime topic string
  | Fbns push
  | Spent

record state =
  ready :: bool
  chat_heap :: "chat list"
  cache_messages :: "(string, message) collection"
  cache_users :: "(string, user) collection"
  cache_chats :: "(string, nat) collection"
  cache_pendingChats :: "(string, nat) collection"
  eventsToReplay :: "replay_entry list"
  emitted :: "event list"
  jobs :: "task list"
  unhandled :: "js_error list"

definition emit :: "event \<Rightarrow> state \<Rightarrow> state" where
  "emit e s = s\<lparr>emitted := emitted s @ [e]\<rparr>"

definition emit_all :: "event list \<Rightarrow> state \<Rightarrow> state" where
  "emit_all es s = s\<lparr>emitted := emitted s @ es\<rparr>"

definition enqueue :: "task \<Rightarrow> state \<Rightarrow> state" where
  "enqueue t s = s\<lparr>jobs := jobs s @ [t]\<rparr>"

definition reject :: "js_error \<Rightarrow> state \<Rightarrow> state" where
  "reject e s = s\<lparr>unhandled := unhandled s @ [e]\<rparr>"

definition chat_at :: "state \<Rightarrow> nat \<Rightarrow> chat option" where
  "chat_at s a = (if a < length (chat_heap s) then Some (chat_heap s ! a) else None)"

definition store_chat :: "nat \<Rightarrow> chat \<Rightarrow> state \<Rightarrow> state" where
  "store_chat a c s = s\<lparr>chat_heap := (chat_heap s)[a := c]\<rparr>"

definition alloc_chat :: "chat \<Rightarrow> state \<Rightarrow> nat \<times> state" where
  "alloc_chat c s = (length (chat_heap s), s\<lparr>chat_heap := chat_heap s @ [c]\<rparr>)"

section \<open>fetchChat and fetchUser\<close>

text \<open>
  An \<^verbatim>\<open>async\<close> function runs synchronously up to its first \<^verbatim>\<open>await\<close>. The
  synchronous part of \<^verbatim>\<open>fetchChat\<close> and \<^verbatim>\<open>fetchUser\<close> only reads the cache; what it
  returns is a promise, either fulfilled already (with the cached object) or waiting
  for a network request.
\<close>

datatype chat_promise =
    ChatFulfilled nat
  | ChatAwaitsCreate string
  | ChatAwaitsRefresh string

datatype user_promise =
    UserFulfilled user
  | UserAwaitsInfo string
  | UserAwaitsId string

definition fetchChat :: "string \<Rightarrow> bool \<Rightarrow> state \<Rightarrow> chat_promise \<times> state" where
  "fetchChat chatID force s =
     (case coll_get (cache_chats s) chatID of
        None \<Rightarrow> (ChatAwaitsCreate chatID, s)
      | Some a \<Rightarrow> if force then (ChatAwaitsRefresh chatID, s) else (ChatFulfilled a, s))"

definition chat_then :: "chat_promise \<times> state \<Rightarrow> chat_then \<Rightarrow> state" where
  "chat_then ps k =
     (case ps of
        (ChatFulfilled a, s) \<Rightarrow> enqueue (ChatReady a k) s
      | (ChatAwaitsCreate chatID, s) \<Rightarrow> enqueue (ChatCreateRequest chatID k) s
      | (ChatAwaitsRefresh chatID, s) \<Rightarrow> enqueue (ChatRefreshRequest chatID k) s)"

text \<open>
  The client itself always calls \<^verbatim>\<open>fetchUser\<close> with \<^verbatim>\<open>force\<close> left at its default
  \<^verbatim>\<open>false\<close>; that is the call modelled. \<open>fetchUser_id\<close> is its body once the user id
  is known.
\<close>

definition fetchUser_id :: "string \<Rightarrow> state \<Rightarrow> user_promise \<times> state" where
  "fetchUser_id userID s =
     (case coll_get (cache_users s) userID of
        None \<Rightarrow> (UserAwaitsInfo userID, s)
      | Some u \<Rightarrow> (UserFulfilled u, s))"

definition fetchUser :: "'j env \<Rightarrow> string \<Rightarrow> state \<Rightarrow> user_promise \<times> state" where
  "fetchUser env query s =
     (if isID env query then fetchUser_id query s else (UserAwaitsId query, s))"

definition user_then :: "user_promise \<times> state \<Rightarrow> user_then \<Rightarrow> state" where
  "user_then ps k =
     (case ps of
        (UserFulfilled u, s) \<Rightarrow> enqueue (UserReady u k) s
      | (UserAwaitsInfo userID, s) \<Rightarrow> enqueue (UserInfoRequest userID k) s
      | (UserAwaitsId query, s) \<Rightarrow> enqueue (UserIdRequest query k) s)"

section \<open>Promise callbacks\<close>

text \<open>
  The callbacks of \<^verbatim>\<open>handleRealtimeReceive\<close>, each run on the chat (an address) its
  promise was fulfilled with. An exception inside a callback rejects the promise the
  \<^verbatim>\<open>then\<close> returned, which nothing handles. The chat address a callback receives
  always lies in the heap; the branch for an address outside it is there for totality.
  Messages and users are values: an event carries the message as the callback that
  registered it saw it, and the user the promise was fulfilled with.
\<close>

definition message_replace :: "'j env \<Rightarrow> nat \<Rightarrow> string \<Rightarrow> state \<Rightarrow> state" where
  "message_replace env a v s =
     (case chat_at s a of
        None \<Rightarrow> s
      | Some chat \<Rightarrow>
          (case JSON_parse env v of
             None \<Rightarrow> reject SyntaxError s
           | Some messagePayload \<Rightarrow>
               (case coll_get (chat_messages chat) (item_id env messagePayload) of
                  None \<Rightarrow> s
                | Some oldMessage \<Rightarrow>
                    let message = Message_patch env messagePayload oldMessage;
                        s1 = store_chat a
                          (chat\<lparr>chat_messages :=
                             coll_set (item_id env messagePayload) message (chat_messages chat)\<rparr>) s
                    in
                      if length (message_likes oldMessage) > length (message_likes message) then
                        (case List.find
                           (\<lambda>like. \<not> list_ex (\<lambda>l. like_userID l = like_userID like)
                              (message_likes message))
                           (message_likes oldMessage) of
                           None \<Rightarrow> reject TypeError s1
                         | Some removed \<Rightarrow>
                             user_then (fetchUser env (like_userID removed) s1)
                               (ThenLikeRemove message))
                      else if length (message_likes message) > length (message_likes oldMessage) then
                        (case List.find
                           (\<lambda>like. \<not> list_ex (\<lambda>l. like_userID l = like_userID like)
                              (message_likes oldMessage))
                           (message_likes message) of
                           None \<Rightarrow> s1
                         | Some added \<Rightarrow>
                             user_then (fetchUser env (like_userID added) s1)
                               (ThenLikeAdd message))
                      else s1)))"

definition admin_push :: "'j env \<Rightarrow> nat \<Rightarrow> string \<Rightarrow> user_then \<Rightarrow> state \<Rightarrow> state" where
  "admin_push env a userID k s =
     (case chat_at s a of
        None \<Rightarrow> s
      | Some chat \<Rightarrow>
          user_then
            (fetchUser env userID
               (store_chat a (chat\<lparr>chat_adminUserIDs := chat_adminUserIDs chat @ [userID]\<rparr>) s))
            k)"

definition message_add :: "'j env \<Rightarrow> nat \<Rightarrow> string \<Rightarrow> string \<Rightarrow> state \<Rightarrow> state" where
  "message_add env a threadID v s =
     (case chat_at s a of
        None \<Rightarrow> s
      | Some chat \<Rightarrow>
          (case JSON_parse env v of
             None \<Rightarrow> reject SyntaxError s
           | Some messagePayload \<Rightarrow>
               if item_type env messagePayload = ''action_log''
                  \<or> item_type env messagePayload = ''video_call_event'' then s
               else
                 let message = new_Message env threadID messagePayload;
                     s1 = store_chat a
                       (chat\<lparr>chat_messages :=
                          coll_set (message_id message) message (chat_messages chat)\<rparr>) s
                 in if isMessageValid env message then emit (MessageCreate message) s1 else s1))"

definition message_remove :: "nat \<Rightarrow> string \<Rightarrow> state \<Rightarrow> state" where
  "message_remove a messageID s =
     (case chat_at s a of
        None \<Rightarrow> s
      | Some chat \<Rightarrow>
          (case coll_get (chat_messages chat) messageID of
             None \<Rightarrow> s
           | Some existing \<Rightarrow> emit (MessageDelete existing) s))"

definition run_chat_then :: "'j env \<Rightarrow> nat \<Rightarrow> chat_then \<Rightarrow> state \<Rightarrow> state" where
  "run_chat_then env a k s =
     (case k of
        ThenReturnChat \<Rightarrow> s
      | ThenMessageReplace v \<Rightarrow> message_replace env a v s
      | ThenAdminAdd userID \<Rightarrow> admin_push env a userID (ThenChatAdminAdd a) s
      | ThenMessageAdd threadID v \<Rightarrow> message_add env a threadID v s
      | ThenAdminRemove userID \<Rightarrow> admin_push env a userID (ThenChatAdminRemove a) s
      | ThenMessageRemove messageID \<Rightarrow> message_remove a messageID s)"

definition emit_with_chat :: "nat \<Rightarrow> (chat \<Rightarrow> event) \<Rightarrow> state \<Rightarrow> state" where
  "emit_with_chat a f s = (case chat_at s a of None \<Rightarrow> s | Some chat \<Rightarrow> emit (f chat) s)"

definition run_user_then :: "user \<Rightarrow> user_then \<Rightarrow> state \<Rightarrow> state" where
  "run_user_then u k s =
     (case k of
        ThenReturnUser \<Rightarrow> s
      | ThenLikeRemove message \<Rightarrow> emit (LikeRemove u message) s
      | ThenLikeAdd message \<Rightarrow> emit (LikeAdd u message) s
      | ThenChatAdminAdd a \<Rightarrow> emit_with_chat a (\<lambda>chat. ChatAdminAdd chat u) s
      | ThenChatAdminRemove a \<Rightarrow> emit_with_chat a (\<lambda>chat. ChatAdminRemove chat u) s
      | ThenNewFollower \<Rightarrow> emit (NewFollower u) s
      | ThenFollowRequest \<Rightarrow> emit (FollowRequest u) s)"

section \<open>Network completions and the job queue\<close>

text \<open>One thread of the pending feed, as the \<^verbatim>\<open>direct_v2_pending\<close> branch stores it.\<close>

definition pending_thread :: "'j env \<Rightarrow> 'j \<Rightarrow> state \<Rightarrow> state" where
  "pending_thread env thread s =
     (let (a, s1) = alloc_chat (new_Chat env (thread_id env thread) thread) s
      in s1\<lparr>cache_chats := coll_set (thread_id env thread) a (cache_chats s1),
             cache_pendingChats := coll_set (thread_id env thread) a (cache_pendingChats s1)\<rparr>)"

definition pending_refresh :: "'j env \<Rightarrow> string \<Rightarrow> 'j list \<Rightarrow> state \<Rightarrow> state" where
  "pending_refresh env actionId pendingRequests s =
     (let s1 = foldl (\<lambda>s thread. pending_thread env thread s) s pendingRequests
      in case coll_get (cache_pendingChats s1) actionId of
           None \<Rightarrow> s1
         | Some a \<Rightarrow> emit_with_chat a PendingRequest s1)"

definition chat_created :: "'j env \<Rightarrow> string \<Rightarrow> 'j \<Rightarrow> state \<Rightarrow> nat \<times> state" where
  "chat_created env chatID chatPayload s =
     (let (a, s1) = alloc_chat (new_Chat env chatID chatPayload) s
      in (a, s1\<lparr>cache_chats := coll_set chatID a (cache_chats s1)\<rparr>))"

text \<open>
  \<open>run_task\<close> runs one job: a callback on its value, or the rest of an \<^verbatim>\<open>async\<close>
  function once its network request has settled.
\<close>

definition run_task :: "'j env \<Rightarrow> task \<Rightarrow> state \<Rightarrow> state" where
  "run_task env t s =
     (case t of
        ChatReady a k \<Rightarrow> run_chat_then env a k s
      | ChatCreateRequest chatID k \<Rightarrow>
          (case directThread env chatID of
             None \<Rightarrow> reject FetchError s
           | Some chatPayload \<Rightarrow>
               (let (a, s1) = chat_created env chatID chatPayload s
                in enqueue (ChatReady a k) s1))
      | ChatRefreshRequest chatID k \<Rightarrow>
          (case directThread env chatID of
             None \<Rightarrow> reject FetchError s
           | Some chatPayload \<Rightarrow>
               (case coll_get (cache_chats s) chatID of
                  None \<Rightarrow> reject TypeError s
                | Some a \<Rightarrow>
                    (case chat_at s a of
                       None \<Rightarrow> s
                     | Some chat \<Rightarrow>
                         enqueue (ChatReady a k) (store_chat a (Chat_patch env chatPayload chat) s))))
      | UserReady u k \<Rightarrow> run_user_then u k s
      | UserInfoRequest userID k \<Rightarrow>
          (case user_info env userID of
             None \<Rightarrow> reject FetchError s
           | Some userPayload \<Rightarrow>
               (let u = new_User env userPayload
                in enqueue (UserReady u k) (s\<lparr>cache_users := coll_set userID u (cache_users s)\<rparr>)))
      | UserIdRequest query k \<Rightarrow>
          (case getIdByUsername env query of
             None \<Rightarrow> reject FetchError s
           | Some userID \<Rightarrow> user_then (fetchUser_id userID s) k)
      | PendingThreadsRequest actionId \<Rightarrow>
          (case directPending env of
             None \<Rightarrow> reject FetchError s
           | Some pendingRequests \<Rightarrow> pending_refresh env actionId pendingRequests s))"

text \<open>
  A job starts at most one further job, of a kind closer to the end of its chain, so
  running the queue to the end terminates.
\<close>

fun task_depth :: "task \<Rightarrow> nat" where
  "task_depth (ChatReady a k) = 4"
| "task_depth (ChatCreateRequest chatID k) = 5"
| "task_depth (ChatRefreshRequest chatID k) = 5"
| "task_depth (UserReady u k) = 1"
| "task_depth (UserInfoRequest userID k) = 2"
| "task_depth (UserIdRequest query k) = 3"
| "task_depth (PendingThreadsRequest actionId) = 1"

definition queue_depth :: "state \<Rightarrow> nat" where
  "queue_depth s = sum_list (map task_depth (jobs s))"

lemma jobs_emit [simp]: "jobs (emit e s) = jobs s"
  by (simp add: emit_def)

lemma jobs_emit_all [simp]: "jobs (emit_all es s) = jobs s"
  by (simp add: emit_all_def)

lemma jobs_reject [simp]: "jobs (reject e s) = jobs s"
  by (simp add: reject_def)

lemma jobs_store_chat [simp]: "jobs (store_chat a c s) = jobs s"
  by (simp add: store_chat_def)

lemma jobs_enqueue [simp]: "jobs (enqueue t s) = jobs s @ [t]"
  by (simp add: enqueue_def)

lemma jobs_emit_with_chat [simp]: "jobs (emit_with_chat a f s) = jobs s"
  by (simp add: emit_with_chat_def split: option.splits)

lemma queue_depth_simps [simp]:
  "queue_depth (emit e s) = queue_depth s"
  "queue_depth (reject err s) = queue_depth s"
  "queue_depth (store_chat a c s) = queue_depth s"
  "queue_depth (emit_with_chat a f s) = queue_depth s"
  "queue_depth (enqueue t s) = queue_depth s + task_depth t"
  by (simp_all add: queue_depth_def)

lemma queue_depth_fetchUser_id:
  "queue_depth (user_then (fetchUser_id userID s) k) \<le> queue_depth s + 2"
  by (simp add: user_then_def fetchUser_id_def split: option.splits)

lemma queue_depth_fetchUser:
  "queue_depth (user_then (fetchUser env query s) k) \<le> queue_depth s + 3"
  using queue_depth_fetchUser_id [of query s k]
  by (simp add: fetchUser_def) (simp add: user_then_def)

lemma queue_depth_message_replace:
  "queue_depth (message_replace env a v s) \<le> queue_depth s + 3"
  unfolding message_replace_def Let_def
  using queue_depth_fetchUser [of env _ "store_chat a _ s"]
  by (auto split: option.splits)

lemma queue_depth_admin_push:
  "queue_depth (admin_push env a userID k s) \<le> queue_depth s + 3"
  unfolding admin_push_def
  using queue_depth_fetchUser [of env userID "store_chat a _ s" k]
  by (auto split: option.splits)

lemma queue_depth_message_add:
  "queue_depth (message_add env a threadID v s) = queue_depth s"
  by (simp add: message_add_def Let_def split: option.splits)

lemma queue_depth_message_remove:
  "queue_depth (message_remove a v s) = queue_depth s"
  by (simp add: message_remove_def split: option.splits)

lemma queue_depth_run_chat_then:
  "queue_depth (run_chat_then env a k s) \<le> queue_depth s + 3"
  using queue_depth_message_replace [of env a _ s] queue_depth_admin_push [of env a _ _ s]
  by (cases k) (simp_all add: run_chat_then_def queue_depth_message_add queue_depth_message_remove)

lemma queue_depth_run_user_then:
  "queue_depth (run_user_then u k s) = queue_depth s"
  by (cases k) (simp_all add: run_user_then_def)

lemma jobs_pending_thread [simp]: "jobs (pending_thread env thread s) = jobs s"
  by (simp add: pending_thread_def alloc_chat_def)

lemma jobs_pending_threads [simp]:
  "jobs (foldl (\<lambda>s thread. pending_thread env thread s) s ths) = jobs s"
  by (induction ths arbitrary: s) simp_all

lemma queue_depth_pending_refresh:
  "queue_depth (pending_refresh env actionId ths s) = queue_depth s"
  by (simp add: pending_refresh_def Let_def queue_depth_def split: option.splits)

lemma queue_depth_run_task:
  "queue_depth (run_task env t s) < queue_depth s + task_depth t"
proof (cases t)
  case (ChatReady a k)
  then show ?thesis
    using queue_depth_run_chat_then [of env a k s] by (simp add: run_task_def)
next
  case (ChatCreateRequest chatID k)
  then show ?thesis
    by (simp add: run_task_def chat_created_def alloc_chat_def queue_depth_def enqueue_def
        split: option.splits)
next
  case (ChatRefreshRequest chatID k)
  then show ?thesis
    by (simp add: run_task_def split: option.splits)
next
  case (UserReady u k)
  then show ?thesis
    by (simp add: run_task_def queue_depth_run_user_then)
next
  case (UserInfoRequest userID k)
  then show ?thesis
    by (simp add: run_task_def Let_def queue_depth_def enqueue_def split: option.splits)
next
  case (UserIdRequest query k)
  then show ?thesis
  proof (cases "getIdByUsername env query")
    case None
    with UserIdRequest show ?thesis by (simp add: run_task_def)
  next
    case (Some userID)
    with UserIdRequest queue_depth_fetchUser_id [of userID s k] show ?thesis
      by (simp add: run_task_def)
  qed
next
  case (PendingThreadsRequest actionId)
  then show ?thesis
    by (simp add: run_task_def queue_depth_pending_refresh split: option.splits)
qed

function drain :: "'j env \<Rightarrow> state \<Rightarrow> state" where
  "drain env s =
     (case jobs s of
        [] \<Rightarrow> s
      | t # ts \<Rightarrow> drain env (run_task env t (s\<lparr>jobs := ts\<rparr>)))"
  by pat_completeness auto
termination
proof (relation "measure (\<lambda>(env, s). queue_depth s)")
  show "wf (measure (\<lambda>(env, s). queue_depth s))" by simp
next
  fix env :: "'j env" and s :: state and t ts
  assume "jobs s = t # ts"
  then have "queue_depth s = queue_depth (s\<lparr>jobs := ts\<rparr>) + task_depth t"
    by (simp add: queue_depth_def)
  with queue_depth_run_task [of env t "s\<lparr>jobs := ts\<rparr>"]
  show "((env, run_task env t (s\<lparr>jobs := ts\<rparr>)), env, s) \<in> measure (\<lambda>(env, s). queue_depth s)"
    by simp
qed

declare drain.simps [simp del]

lemma drain_empty: "jobs s = [] \<Longrightarrow> drain env s = s"
  by (simp add: drain.simps)

lemma drain_step:
  "jobs s = t # ts \<Longrightarrow> drain env s = drain env (run_task env t (s\<lparr>jobs := ts\<rparr>))"
  by (simp add: drain.simps)

text \<open>
  \<open>drain\<close> runs the queue to its end, the jobs in the order they were queued and a
  network answer as soon as its turn comes: one schedule among those the runtime allows.
\<close>

section \<open>What a fetch resolves to\<close>

text \<open>
  The outcome of \<^verbatim>\<open>fetchChat\<close> and of \<^verbatim>\<open>fetchUser\<close> once their promise is fulfilled,
  in one step: the value the promise carries and the state it leaves, or \<open>None\<close> when
  the promise rejects. \<open>drain_chat_then\<close> and \<open>drain_user_then\<close> below relate them to
  the jobs of the queue.
\<close>

definition resolved_chat :: "'j env \<Rightarrow> string \<Rightarrow> state \<Rightarrow> (nat \<times> state) option" where
  "resolved_chat env chatID s =
     (case coll_get (cache_chats s) chatID of
        Some a \<Rightarrow> Some (a, s)
      | None \<Rightarrow>
          (case directThread env chatID of
             None \<Rightarrow> None
           | Some chatPayload \<Rightarrow> Some (chat_created env chatID chatPayload s)))"

definition resolved_user :: "'j env \<Rightarrow> string \<Rightarrow> state \<Rightarrow> (user \<times> state) option" where
  "resolved_user env query s =
     (case (if isID env query then Some query else getIdByUsername env query) of
        None \<Rightarrow> None
      | Some userID \<Rightarrow>
          (case coll_get (cache_users s) userID of
             Some u \<Rightarrow> Some (u, s)
           | None \<Rightarrow>
               (case user_info env userID of
                  None \<Rightarrow> None
                | Some userPayload \<Rightarrow>
                    Some (new_User env userPayload,
                          s\<lparr>cache_users :=
                              coll_set userID (new_User env userPayload) (cache_users s)\<rparr>))))"

section \<open>Realtime patches\<close>

text \<open>The three comparisons of a thread replace, on the snapshot and the merged chat.\<close>

definition name_diff :: "chat \<Rightarrow> chat \<Rightarrow> event list" where
  "name_diff oldChat chat =
     (if chat_name oldChat \<noteq> chat_name chat
      then [ChatNameUpdate chat (chat_name oldChat) (chat_name chat)] else [])"

definition users_diff :: "chat \<Rightarrow> chat \<Rightarrow> event list" where
  "users_diff oldChat chat =
     (if coll_size (chat_users oldChat) < coll_size (chat_users chat) then
        (case coll_find (\<lambda>u. \<not> coll_has (chat_users oldChat) (user_id u)) (chat_users chat) of
           None \<Rightarrow> []
         | Some userAdded \<Rightarrow> [ChatUserAdd chat userAdded])
      else if coll_size (chat_users oldChat) > coll_size (chat_users chat) then
        (case coll_find (\<lambda>u. \<not> coll_has (chat_users chat) (user_id u)) (chat_users oldChat) of
           None \<Rightarrow> []
         | Some userRemoved \<Rightarrow> [ChatUserRemove chat userRemoved])
      else [])"

definition calling_diff :: "chat \<Rightarrow> chat \<Rightarrow> event list" where
  "calling_diff oldChat chat =
     (if \<not> chat_calling oldChat \<and> chat_calling chat then [CallStart chat]
      else if chat_calling oldChat \<and> \<not> chat_calling chat then [CallEnd chat]
      else [])"

text \<open>The events that report a membership change.\<close>

fun is_member_event :: "event \<Rightarrow> bool" where
  "is_member_event (ChatUserAdd c u) = True"
| "is_member_event (ChatUserRemove c u) = True"
| "is_member_event e = False"

text \<open>
  The functions of this section return \<open>Inl (e, s)\<close> when the JavaScript throws \<open>e\<close>,
  with the state \<open>s\<close> the throw leaves behind. In \<open>replace_thread\<close> the address the
  cache gives always lies in the heap; the branch for an address outside it is there for
  totality.
\<close>

type_synonym outcome = "(js_error \<times> state) + state"

definition state_of :: "outcome \<Rightarrow> state" where
  "state_of r = (case r of Inl (e, s) \<Rightarrow> s | Inr s \<Rightarrow> s)"

definition replace_thread :: "'j env \<Rightarrow> string \<Rightarrow> string \<Rightarrow> state \<Rightarrow> outcome" where
  "replace_thread env threadID v s =
     (case coll_get (cache_chats s) threadID of
        Some a \<Rightarrow>
          (case JSON_parse env v of
             None \<Rightarrow> Inl (SyntaxError, s)
           | Some payload \<Rightarrow>
               (case chat_at s a of
                  None \<Rightarrow> Inr s
                | Some oldChat \<Rightarrow>
                    let chat = Chat_patch env payload oldChat
                    in Inr (emit_all
                              (name_diff oldChat chat @ users_diff oldChat chat
                                 @ calling_diff oldChat chat)
                              (store_chat a chat s))))
      | None \<Rightarrow>
          (case JSON_parse env v of
             None \<Rightarrow> Inl (SyntaxError, s)
           | Some payload \<Rightarrow>
               let chat = new_Chat env threadID payload; (a, s1) = alloc_chat chat s
               in Inr (s1\<lparr>cache_chats := coll_set (chat_id chat) a (cache_chats s1)\<rparr>)))"

definition handle_replace :: "'j env \<Rightarrow> patch_op \<Rightarrow> state \<Rightarrow> outcome" where
  "handle_replace env d s =
     (case matchInboxThreadPath env (op_path d) of
        Some threadID \<Rightarrow> replace_thread env threadID (op_value d) s
      | None \<Rightarrow>
          (case matchMessagePath env (op_path d) of
             Some threadID \<Rightarrow>
               Inr (chat_then (fetchChat threadID False s) (ThenMessageReplace (op_value d)))
           | None \<Rightarrow> Inr s))"

definition handle_add :: "'j env \<Rightarrow> patch_op \<Rightarrow> state \<Rightarrow> outcome" where
  "handle_add env d s =
     (case matchAdminPath env (op_path d) of
        Some (threadID, userID) \<Rightarrow>
          Inr (chat_then (fetchChat threadID False s) (ThenAdminAdd userID))
      | None \<Rightarrow>
          (case matchMessagePath env (op_path d) of
             Some threadID \<Rightarrow>
               Inr (chat_then (fetchChat threadID False s) (ThenMessageAdd threadID (op_value d)))
           | None \<Rightarrow> Inr s))"

definition handle_remove :: "'j env \<Rightarrow> patch_op \<Rightarrow> state \<Rightarrow> outcome" where
  "handle_remove env d s =
     (case matchAdminPath env (op_path d) of
        Some (threadID, userID) \<Rightarrow>
          Inr (chat_then (fetchChat threadID False s) (ThenAdminRemove userID))
      | None \<Rightarrow>
          (case matchMessagePath env (op_path d) of
             Some threadID \<Rightarrow>
               Inr (chat_then (fetchChat threadID False s) (ThenMessageRemove (op_value d)))
           | None \<Rightarrow> Inr s))"

definition handle_op :: "'j env \<Rightarrow> patch_op \<Rightarrow> state \<Rightarrow> outcome" where
  "handle_op env d s =
     (if op_kind d = ''replace'' then handle_replace env d s
      else if op_kind d = ''add'' then handle_add env d s
      else if op_kind d = ''remove'' then handle_remove env d s
      else Inr s)"

text \<open>
  The operations of one raw message run inside an \<^verbatim>\<open>async\<close> arrow function: an
  exception ends that message's loop and rejects the promise of the arrow function; the
  outer loop goes on with the next raw message. Such an exception is one a patch
  operation throws, the \<^verbatim>\<open>TypeError\<close> of reading \<^verbatim>\<open>op\<close> of a \<^verbatim>\<open>null\<close> entry, or
  the \<^verbatim>\<open>TypeError\<close> of \<^verbatim>\<open>rawMessage.data.forEach\<close> when there is no such array.
\<close>

fun handle_ops :: "'j env \<Rightarrow> entry list \<Rightarrow> state \<Rightarrow> state" where
  "handle_ops env [] s = s"
| "handle_ops env (NullEntry # ds) s = reject TypeError s"
| "handle_ops env (Entry d # ds) s =
     (case handle_op env d s of
        Inl (e, s') \<Rightarrow> reject e s'
      | Inr s' \<Rightarrow> handle_ops env ds s')"

definition handle_raw_message :: "'j env \<Rightarrow> raw_message \<Rightarrow> state \<Rightarrow> state" where
  "handle_raw_message env rawMessage s =
     (case rawMessage of
        NoDataList \<Rightarrow> reject TypeError s
      | DataList ds \<Rightarrow> handle_ops env ds s)"

definition handle_raw_messages :: "'j env \<Rightarrow> raw_message list \<Rightarrow> state \<Rightarrow> state" where
  "handle_raw_messages env rawMessages s =
     foldl (\<lambda>s rawMessage. handle_raw_message env rawMessage s) s rawMessages"

text \<open>
  \<^verbatim>\<open>JSON.parse(payload)\<close> and \<^verbatim>\<open>rawMessages.forEach\<close> stand outside the arrow function:
  a payload that does not parse, and one that parses to something that is not an array,
  make \<^verbatim>\<open>handleRealtimeReceive\<close> itself throw, after \<^verbatim>\<open>rawRealtime\<close> is emitted.
\<close>

definition handleRealtimeReceive :: "'j env \<Rightarrow> topic \<Rightarrow> string \<Rightarrow> state \<Rightarrow> outcome" where
  "handleRealtimeReceive env topic payload s =
     (if \<not> ready s then
        Inr (s\<lparr>eventsToReplay := eventsToReplay s @ [Realtime topic payload]\<rparr>)
      else
        let s1 = emit (RawRealtime topic payload) s
        in if topic_id topic = ''146'' then
             (case parse_batch env payload of
                None \<Rightarrow> Inl (SyntaxError, s1)
              | Some NotArray \<Rightarrow> Inl (TypeError, s1)
              | Some (Batch rawMessages) \<Rightarrow> Inr (handle_raw_messages env rawMessages s1))
           else Inr s1)"

section \<open>Push notifications\<close>

text \<open>
  \<^verbatim>\<open>handleFbnsReceive\<close> is an \<^verbatim>\<open>async\<close> function: it returns a promise and never
  throws to its caller. Its \<^verbatim>\<open>await\<close>s are the jobs it leaves in the queue.
\<close>

definition handleFbnsReceive :: "'j env \<Rightarrow> push \<Rightarrow> state \<Rightarrow> state" where
  "handleFbnsReceive env data s =
     (if \<not> ready s then s\<lparr>eventsToReplay := eventsToReplay s @ [Fbns data]\<rparr>
      else
        let s1 = emit (RawFbns data) s
        in if pushCategory data = Some ''new_follower'' then
             (case sourceUserId data of
                None \<Rightarrow> s1
              | Some userID \<Rightarrow>
                  if truthy (sourceUserId data)
                  then user_then (fetchUser env userID s1) ThenNewFollower else s1)
           else if pushCategory data = Some ''private_user_follow_request'' then
             (case sourceUserId data of
                None \<Rightarrow> s1
              | Some userID \<Rightarrow>
                  if truthy (sourceUserId data)
                  then user_then (fetchUser env userID s1) ThenFollowRequest else s1)
           else if pushCategory data = Some ''direct_v2_pending'' then
             (case actionParams_id data of
                None \<Rightarrow> s1
              | Some actionId \<Rightarrow>
                  if truthy (actionParams_id data)
                     \<and> coll_get (cache_pendingChats s1) actionId = None
                  then enqueue (PendingThreadsRequest actionId) s1 else s1)
           else if pushCategory data = Some ''live_broadcast'' then emit (LiveNotification data) s1
           else emit (Push data) s1)"

section \<open>Login, replay and the other entry points\<close>

text \<open>
  Of \<^verbatim>\<open>login\<close> the model has the two parts that touch the cache and the buffer:
  loading the threads of the inbox and pending feeds (\<open>load_threads\<close>, on the threads the
  two feeds returned), and the end of the function from \<^verbatim>\<open>this.ready = true\<close> on
  (\<open>login_ready\<close>). The replay loop takes the tag off each entry with
  \<^verbatim>\<open>event.shift()\<close> before it dispatches: an entry the loop has visited is \<open>Spent\<close>.
  When a handler throws, the loop ends there and the assignment that empties the buffer
  is not reached.
\<close>

definition load_thread :: "'j env \<Rightarrow> 'j \<Rightarrow> state \<Rightarrow> state" where
  "load_thread env thread s =
     (let chat = new_Chat env (thread_id env thread) thread;
          (a, s1) = alloc_chat chat s;
          s2 = s1\<lparr>cache_chats := coll_set (thread_id env thread) a (cache_chats s1)\<rparr>
      in if chat_pending chat
         then s2\<lparr>cache_pendingChats := coll_set (thread_id env thread) a (cache_pendingChats s2)\<rparr>
         else s2)"

definition load_threads :: "'j env \<Rightarrow> 'j list \<Rightarrow> state \<Rightarrow> state" where
  "load_threads env threads s = foldl (\<lambda>s thread. load_thread env thread s) s threads"

fun replay :: "'j env \<Rightarrow> nat \<Rightarrow> replay_entry list \<Rightarrow> state \<Rightarrow> outcome" where
  "replay env i [] s = Inr s"
| "replay env i (event # events) s =
     (let s0 = s\<lparr>eventsToReplay := (eventsToReplay s)[i := Spent]\<rparr>
      in case event of
           Realtime topic payload \<Rightarrow>
             (case handleRealtimeReceive env topic payload s0 of
                Inl err \<Rightarrow> Inl err
              | Inr s1 \<Rightarrow> replay env (Suc i) events s1)
         | Fbns data \<Rightarrow> replay env (Suc i) events (handleFbnsReceive env data s0)
         | Spent \<Rightarrow> replay env (Suc i) events s0)"

definition login_ready :: "'j env \<Rightarrow> state \<Rightarrow> outcome" where
  "login_ready env s =
     (let s1 = emit Connected (s\<lparr>ready := True\<rparr>)
      in case replay env 0 (eventsToReplay s1) s1 of
           Inl err \<Rightarrow> Inl err
         | Inr s2 \<Rightarrow> Inr (s2\<lparr>eventsToReplay := []\<rparr>))"

text \<open>The state the constructor leaves.\<close>

definition new_client :: state where
  "new_client =
     \<lparr>ready = False, chat_heap = [], cache_messages = [], cache_users = [], cache_chats = [],
      cache_pendingChats = [], eventsToReplay = [], emitted = [], jobs = [], unhandled = []\<rparr>"

definition logout :: "state \<Rightarrow> state" where
  "logout s = s\<lparr>ready := False\<rparr>"

text \<open>\<^verbatim>\<open>createChat\<close>, from the thread payload the network call returned.\<close>

definition createChat :: "'j env \<Rightarrow> 'j \<Rightarrow> state \<Rightarrow> state" where
  "createChat env threadPayload s =
     (let chat = new_Chat env (thread_id env threadPayload) threadPayload;
          (a, s1) = alloc_chat chat s
      in s1\<lparr>cache_chats := coll_set (chat_id chat) a (cache_chats s1)\<rparr>)"

text \<open>An inbound raw event, and its delivery to the handler registered for it.\<close>

datatype inbound =
    FromRealtime topic string
  | FromFbns push

definition receive :: "'j env \<Rightarrow> inbound \<Rightarrow> state \<Rightarrow> outcome" where
  "receive env ev s =
     (case ev of
        FromRealtime topic payload \<Rightarrow> handleRealtimeReceive env topic payload s
      | FromFbns data \<Rightarrow> Inr (handleFbnsReceive env data s))"

text \<open>
  Events delivered one after the other. An exception of a handler goes to the transport
  that called it; the next delivery is a call of its own.
\<close>

definition receive_all :: "'j env \<Rightarrow> inbound list \<Rightarrow> state \<Rightarrow> state" where
  "receive_all env evs s = foldl (\<lambda>s ev. state_of (receive env ev s)) s evs"

definition buffered :: "inbound \<Rightarrow> replay_entry" where
  "buffered ev =
     (case ev of FromRealtime topic payload \<Rightarrow> Realtime topic payload | FromFbns data \<Rightarrow> Fbns data)"

text \<open>
  The deliveries whose handler throws: a realtime delivery on topic 146 whose payload
  does not parse (\<^verbatim>\<open>SyntaxError\<close>) or parses to something that is not an array
  (\<^verbatim>\<open>TypeError\<close>). \<open>receive_throws_iff\<close> below proves that a ready client's handler
  throws on these and on no other delivery. \<open>with_buffer\<close> sets the buffer in an outcome.
\<close>

definition throws :: "'j env \<Rightarrow> inbound \<Rightarrow> bool" where
  "throws env ev =
     (case ev of
        FromRealtime topic payload \<Rightarrow>
          topic_id topic = ''146''
          \<and> (parse_batch env payload = None \<or> parse_batch env payload = Some NotArray)
      | FromFbns data \<Rightarrow> False)"

definition with_buffer :: "replay_entry list \<Rightarrow> outcome \<Rightarrow> outcome" where
  "with_buffer b r =
     (case r of
        Inl (e, s) \<Rightarrow> Inl (e, s\<lparr>eventsToReplay := b\<rparr>)
      | Inr s \<Rightarrow> Inr (s\<lparr>eventsToReplay := b\<rparr>))"

section \<open>The operations of the engine\<close>

text \<open>
  Every way the state changes is one of these: an inbound event delivered to its
  handler, the first job of the queue run, the threads loaded at login, the end of
  \<^verbatim>\<open>login\<close>, \<^verbatim>\<open>logout\<close>, \<^verbatim>\<open>createChat\<close>, and a call of \<^verbatim>\<open>fetchChat\<close> or
  \<^verbatim>\<open>fetchUser\<close> by the application.
\<close>

datatype 'j action =
    Deliver inbound
  | RunJob
  | LoadThreads "'j list"
  | LoginReady
  | Logout
  | CreateChat 'j
  | FetchChat string bool
  | FetchUser string

definition step :: "'j env \<Rightarrow> 'j action \<Rightarrow> state \<Rightarrow> state" where
  "step env act s =
     (case act of
        Deliver ev \<Rightarrow> state_of (receive env ev s)
      | RunJob \<Rightarrow> (case jobs s of [] \<Rightarrow> s | t # ts \<Rightarrow> run_task env t (s\<lparr>jobs := ts\<rparr>))
      | LoadThreads threads \<Rightarrow> load_threads env threads s
      | LoginReady \<Rightarrow> state_of (login_ready env s)
      | Logout \<Rightarrow> logout s
      | CreateChat threadPayload \<Rightarrow> createChat env threadPayload s
      | FetchChat chatID force \<Rightarrow> chat_then (fetchChat chatID force s) ThenReturnChat
      | FetchUser query \<Rightarrow> user_then (fetchUser env query s) ThenReturnUser)"

text \<open>
  \<open>pending_subset\<close>: every id of the pending-chats cache is an id of the chats cache.
  \<open>chats_grow s s'\<close>: from \<open>s\<close> to \<open>s'\<close> the pending-chats cache is the same and the
  chats cache has lost no id.
\<close>

definition pending_subset :: "state \<Rightarrow> bool" where
  "pending_subset s = (coll_keys (cache_pendingChats s) \<subseteq> coll_keys (cache_chats s))"

definition chats_grow :: "state \<Rightarrow> state \<Rightarrow> bool" where
  "chats_grow s s' =
     (cache_pendingChats s' = cache_pendingChats s
      \<and> coll_keys (cache_chats s) \<subseteq> coll_keys (cache_chats s'))"

section \<open>A concrete instance\<close>

text \<open>
  A small instance of the collaborators and a ready client with one cached chat, on which
  the theorems below are evaluated.
\<close>

datatype json =
    JThread string "string option" "user list option" "bool option" bool
  | JItem string string string
  | JUser user

definition example_patch :: "json \<Rightarrow> chat \<Rightarrow> chat" where
  "example_patch p c =
     (case p of
        JThread tid title members calling pending \<Rightarrow>
          c\<lparr>chat_name := (case title of None \<Rightarrow> chat_name c | Some t \<Rightarrow> Some t),
            chat_users := (case members of None \<Rightarrow> chat_users c
                           | Some us \<Rightarrow> map (\<lambda>u. (user_id u, u)) us),
            chat_calling := (case calling of None \<Rightarrow> chat_calling c | Some b \<Rightarrow> b),
            chat_pending := pending\<rparr>
      | _ \<Rightarrow> c)"

definition example_message :: "string \<Rightarrow> json \<Rightarrow> message" where
  "example_message threadID p =
     (case p of
        JItem iid ty content \<Rightarrow>
          \<lparr>message_id = iid, message_chatID = threadID, message_content = content,
           message_likes = []\<rparr>
      | _ \<Rightarrow> \<lparr>message_id = [], message_chatID = threadID, message_content = [],
              message_likes = []\<rparr>)"

definition alice :: user where
  "alice = \<lparr>user_id = ''7'', username = ''alice''\<rparr>"

definition bob :: user where
  "bob = \<lparr>user_id = ''8'', username = ''bob''\<rparr>"

definition example_parse :: "string \<Rightarrow> json option" where
  "example_parse v =
     (if v = ''title B'' then Some (JThread ''1'' (Some ''B'') None None False)
      else if v = ''members alice bob'' then Some (JThread ''1'' None (Some [alice, bob]) None False)
      else if v = ''members none'' then Some (JThread ''1'' None (Some []) None False)
      else if v = ''thread 2'' then Some (JThread ''2'' (Some ''C'') (Some [bob]) None False)
      else if v = ''item 11'' then Some (JItem ''11'' ''text'' ''hello'')
      else None)"

definition example_env :: "json env" where
  "example_env =
     \<lparr>matchInboxThreadPath =
        (\<lambda>p. if p = ''/direct_v2/inbox/threads/1'' then Some ''1''
              else if p = ''/direct_v2/inbox/threads/2'' then Some ''2'' else None),
      matchMessagePath =
        (\<lambda>p. if p = ''/direct_v2/threads/1/items/10'' then Some ''1''
              else if p = ''/direct_v2/threads/2/items/20'' then Some ''2'' else None),
      matchAdminPath =
        (\<lambda>p. if p = ''/direct_v2/threads/1/admin_user_ids/7'' then Some (''1'', ''7'')
              else if p = ''/direct_v2/threads/2/admin_user_ids/8'' then Some (''2'', ''8'')
              else None),
      isMessageValid = (\<lambda>m. message_content m \<noteq> []),
      isID = (\<lambda>q. q \<noteq> [] \<and> list_all (\<lambda>c. c \<in> set ''0123456789'') q),
      JSON_parse = example_parse,
      parse_batch =
        (\<lambda>payload.
           if payload = ''rename'' then
             Some (Batch [DataList [Entry \<lparr>op_kind = ''replace'',
                                            op_path = ''/direct_v2/inbox/threads/1'',
                                            op_value = ''title B''\<rparr>]])
           else if payload = ''unsend'' then
             Some (Batch [DataList [Entry \<lparr>op_kind = ''remove'',
                                            op_path = ''/direct_v2/threads/1/items/10'',
                                            op_value = ''10''\<rparr>]])
           else if payload = ''bad rename'' then
             Some (Batch [DataList [Entry \<lparr>op_kind = ''replace'',
                                            op_path = ''/direct_v2/inbox/threads/1'',
                                            op_value = ''{title''\<rparr>,
                                    Entry \<lparr>op_kind = ''replace'',
                                            op_path = ''/direct_v2/inbox/threads/1'',
                                            op_value = ''title B''\<rparr>]])
           else if payload = ''{}'' then Some NotArray
           else None),
      new_Chat =
        (\<lambda>threadID p. example_patch p
           \<lparr>chat_id = threadID, chat_name = None, chat_users = [], chat_adminUserIDs = [],
            chat_calling = False, chat_messages = [], chat_pending = False\<rparr>),
      Chat_patch = example_patch,
      new_Message = example_message,
      Message_patch = (\<lambda>p m. m),
      new_User = (\<lambda>p. case p of JUser u \<Rightarrow> u | _ \<Rightarrow> \<lparr>user_id = [], username = []\<rparr>),
      item_id = (\<lambda>p. case p of JItem iid ty content \<Rightarrow> iid | _ \<Rightarrow> []),
      item_type = (\<lambda>p. case p of JItem iid ty content \<Rightarrow> ty | _ \<Rightarrow> []),
      thread_id = (\<lambda>p. case p of JThread tid title members calling pending \<Rightarrow> tid | _ \<Rightarrow> []),
      directThread =
        (\<lambda>chatID. if chatID = ''2'' then Some (JThread ''2'' (Some ''C'') (Some [bob]) None False)
                   else None),
      directPending = Some [JThread ''3'' None (Some [bob]) None True],
      user_info = (\<lambda>userID. if userID = ''8'' then Some (JUser bob) else None),
      getIdByUsername = (\<lambda>query. None)\<rparr>"

definition hello :: message where
  "hello = \<lparr>message_id = ''10'', message_chatID = ''1'', message_content = ''hi'',
            message_likes = []\<rparr>"

definition example_chat :: chat where
  "example_chat =
     \<lparr>chat_id = ''1'', chat_name = Some ''A'', chat_users = [(''7'', alice)],
      chat_adminUserIDs = [], chat_calling = False, chat_messages = [(''10'', hello)],
      chat_pending = False\<rparr>"

definition example_state :: state where
  "example_state =
     \<lparr>ready = True, chat_heap = [example_chat], cache_messages = [],
      cache_users = [(''7'', alice)], cache_chats = [(''1'', 0)], cache_pendingChats = [],
      eventsToReplay = [], emitted = [], jobs = [], unhandled = []\<rparr>"

lemmas example_defs =
  example_state_def example_chat_def example_env_def example_parse_def example_patch_def
  example_message_def alice_def bob_def hello_def

text \<open>Patch operations on the example chat.\<close>

definition add_bob :: patch_op where
  "add_bob = \<lparr>op_kind = ''replace'', op_path = ''/direct_v2/inbox/threads/1'',
              op_value = ''members alice bob''\<rparr>"

definition remove_all :: patch_op where
  "remove_all = \<lparr>op_kind = ''replace'', op_path = ''/direct_v2/inbox/threads/1'',
                 op_value = ''members none''\<rparr>"

definition rename_B :: patch_op where
  "rename_B = \<lparr>op_kind = ''replace'', op_path = ''/direct_v2/inbox/threads/1'',
               op_value = ''title B''\<rparr>"

definition new_thread_2 :: patch_op where
  "new_thread_2 = \<lparr>op_kind = ''replace'', op_path = ''/direct_v2/inbox/threads/2'',
                   op_value = ''thread 2''\<rparr>"

definition unsend :: patch_op where
  "unsend = \<lparr>op_kind = ''remove'', op_path = ''/direct_v2/threads/1/items/10'',
             op_value = ''10''\<rparr>"

definition demote :: patch_op where
  "demote = \<lparr>op_kind = ''remove'', op_path = ''/direct_v2/threads/1/admin_user_ids/7'',
             op_value = []\<rparr>"

definition demote_bob :: patch_op where
  "demote_bob = \<lparr>op_kind = ''remove'', op_path = ''/direct_v2/threads/2/admin_user_ids/8'',
                 op_value = []\<rparr>"

text \<open>The chat that \<open>new_Chat\<close> builds from what \<open>directThread\<close> answers for thread 2.\<close>

definition chat_2 :: chat where
  "chat_2 = \<lparr>chat_id = ''2'', chat_name = Some ''C'', chat_users = [(''8'', bob)],
             chat_adminUserIDs = [], chat_calling = False, chat_messages = [],
             chat_pending = False\<rparr>"

definition follower_push :: push where
  "follower_push = \<lparr>pushCategory = Some ''new_follower'', sourceUserId = Some ''8'',
                    actionParams_id = None, push_message = ''bob started following you''\<rparr>"

definition odd_push :: push where
  "odd_push = \<lparr>pushCategory = Some ''comment'', sourceUserId = None,
               actionParams_id = None, push_message = ''bob commented''\<rparr>"

definition direct_topic :: topic where
  "direct_topic = \<lparr>topic_id = ''146'', topic_path = ''/ig_message_sync''\<rparr>"




definition pending_3 :: json where
  "pending_3 = JThread ''3'' None (Some [bob]) None True"

definition inbox_2 :: json where
  "inbox_2 = JThread ''2'' (Some ''C'') (Some [bob]) None False"

definition refreshing_state :: state where
  "refreshing_state = step example_env RunJob (enqueue (PendingThreadsRequest ''3'') example_state)"

definition cold_state :: state where
  "cold_state = example_state\<lparr>ready := False\<rparr>"

definition broken_burst :: "inbound list" where
  "broken_burst = [FromRealtime direct_topic ''{junk'', FromFbns odd_push]"

definition unsend_burst :: "inbound list" where
  "unsend_burst = [FromRealtime direct_topic ''unsend'', FromFbns odd_push]"

definition unsend_rename :: "inbound list" where
  "unsend_rename = [FromRealtime direct_topic ''unsend'', FromRealtime direct_topic ''rename'']"

section \<open>Auxiliary facts\<close>

lemma coll_has_keys: "coll_has c k \<longleftrightarrow> k \<in> coll_keys c"
  by (simp add: coll_has_def coll_keys_def map_of_eq_None_iff)

lemma coll_size_card: "distinct (map fst c) \<Longrightarrow> coll_size c = card (coll_keys c)"
  using distinct_card [of "map fst c"] by (simp add: coll_size_def coll_keys_def)

lemma find_the_only:
  "u \<in> set xs \<Longrightarrow> P u \<Longrightarrow> \<forall>y\<in>set xs. P y \<longrightarrow> y = u \<Longrightarrow> List.find P xs = Some u"
proof (induction xs)
  case Nil
  then show ?case by simp
next
  case (Cons a xs)
  show ?case
  proof (cases "P a")
    case True
    from Cons.prems(3) have "P a \<longrightarrow> a = u" by (rule bspec) simp
    with True have "a = u" by (rule rev_mp)
    with True show ?thesis by simp
  next
    case False
    with Cons.prems(1,2) have "u \<in> set xs" by auto
    moreover note Cons.prems(2)
    moreover have "\<forall>y\<in>set xs. P y \<longrightarrow> y = u"
    proof
      fix y assume "y \<in> set xs"
      then have "y \<in> set (a # xs)" by simp
      with Cons.prems(3) show "P y \<longrightarrow> y = u" by (rule bspec)
    qed
    ultimately have "List.find P xs = Some u" by (rule Cons.IH)
    with False show ?thesis by simp
  qed
qed

lemma keyed_by_id_entry:
  assumes "keyed_by_id us" and "(k, u) \<in> set us"
  shows "user_id u = k"
proof -
  from assms(1) have "\<forall>p\<in>set us. (case p of (k, u) \<Rightarrow> user_id u = k)"
    by (simp add: keyed_by_id_def list_all_iff)
  with assms(2) show ?thesis by fastforce
qed

lemma coll_find_new_key:
  assumes new: "keyed_by_id new" and finite_old: "coll_keys new = insert x (coll_keys old)"
    and x: "x \<notin> coll_keys old"
  shows "\<exists>u. coll_get new x = Some u
           \<and> coll_find (\<lambda>u. \<not> coll_has old (user_id u)) new = Some u"
proof -
  have d: "distinct (map fst new)" using new by (simp add: keyed_by_id_def)
  have "x \<in> fst ` set new" using finite_old by (simp add: coll_keys_def)
  then obtain u where u: "(x, u) \<in> set new" by auto
  with d have g: "coll_get new x = Some u" by (simp add: coll_get_def)
  have "List.find (\<lambda>u. \<not> coll_has old (user_id u)) (map snd new) = Some u"
  proof (rule find_the_only, goal_cases)
    case 1
    show "u \<in> set (map snd new)" using u by (simp add: image_iff) (rule bexI [of _ "(x, u)"], simp_all)
  next
    case 2
    show "\<not> coll_has old (user_id u)"
      using keyed_by_id_entry [OF new u] x by (simp add: coll_has_keys)
  next
    case 3
    have "y = u" if y: "y \<in> set (map snd new)" and p: "\<not> coll_has old (user_id y)" for y
    proof -
      from y obtain k where k: "(k, y) \<in> set new" by auto
      then have "k \<in> coll_keys new"
        by (simp add: coll_keys_def image_iff) (rule bexI [of _ "(k, y)"], simp_all)
      moreover have "user_id y = k" by (rule keyed_by_id_entry [OF new k])
      ultimately have "k = x" using p finite_old by (auto simp: coll_has_keys)
      with k have "(x, y) \<in> set new" by simp
      from eq_key_imp_eq_value [OF d this u] show "y = u" .
    qed
    then show ?case by blast
  qed
  with g show ?thesis by (auto simp: coll_find_def)
qed

lemma coll_size_grows:
  assumes "distinct (map fst new)" "distinct (map fst old)"
    and "coll_keys new = insert x (coll_keys old)" and "x \<notin> coll_keys old"
  shows "coll_size old < coll_size new"
proof -
  have "finite (coll_keys old)" by (simp add: coll_keys_def)
  with assms show ?thesis by (simp add: coll_size_card)
qed

lemma no_member_event_in_name_diff [simp]: "filter is_member_event (name_diff old new) = []"
  by (simp add: name_diff_def)

lemma no_member_event_in_calling_diff [simp]: "filter is_member_event (calling_diff old new) = []"
  by (simp add: calling_diff_def)

lemma handle_op_replace_cached:
  assumes "op_kind d = ''replace''"
    and "matchInboxThreadPath env (op_path d) = Some threadID"
    and "coll_get (cache_chats s) threadID = Some a"
    and "chat_at s a = Some oldChat"
    and "JSON_parse env (op_value d) = Some payload"
  shows "handle_op env d s =
           Inr (emit_all (name_diff oldChat (Chat_patch env payload oldChat)
                            @ users_diff oldChat (Chat_patch env payload oldChat)
                            @ calling_diff oldChat (Chat_patch env payload oldChat))
                  (store_chat a (Chat_patch env payload oldChat) s))"
  using assms by (simp add: handle_op_def handle_replace_def replace_thread_def Let_def)

lemma emitted_emit_all [simp]: "emitted (emit_all evs s) = emitted s @ evs"
  by (simp add: emit_all_def)

lemma emitted_store_chat [simp]: "emitted (store_chat a c s) = emitted s"
  by (simp add: store_chat_def)

lemma state_of_Inr [simp]: "state_of (Inr s) = s"
  by (simp add: state_of_def)

lemma state_of_Inl [simp]: "state_of (Inl (e, s)) = s"
  by (simp add: state_of_def)

lemma drain_single: "jobs s = [] \<Longrightarrow> drain env (enqueue t s) = drain env (run_task env t s)"
proof -
  assume e: "jobs s = []"
  then have "jobs (enqueue t s) = [t]" by simp
  then have "drain env (enqueue t s) = drain env (run_task env t ((enqueue t s)\<lparr>jobs := []\<rparr>))"
    by (rule drain_step)
  moreover have "(enqueue t s)\<lparr>jobs := []\<rparr> = s" using e by (simp add: enqueue_def)
  ultimately show ?thesis by simp
qed

lemma resolved_chat_frame:
  assumes "resolved_chat env chatID s = Some (a, s1)"
  shows "jobs s1 = jobs s" and "emitted s1 = emitted s" and "cache_users s1 = cache_users s"
    and "ready s1 = ready s" and "unhandled s1 = unhandled s"
    and "cache_pendingChats s1 = cache_pendingChats s" and "eventsToReplay s1 = eventsToReplay s"
  using assms
  by (auto simp: resolved_chat_def chat_created_def alloc_chat_def split: option.splits)

lemma resolved_user_frame:
  assumes "resolved_user env query s = Some (u, s1)"
  shows "jobs s1 = jobs s" and "emitted s1 = emitted s" and "chat_heap s1 = chat_heap s"
    and "cache_chats s1 = cache_chats s" and "ready s1 = ready s" and "unhandled s1 = unhandled s"
    and "cache_pendingChats s1 = cache_pendingChats s" and "eventsToReplay s1 = eventsToReplay s"
  using assms
  by (auto simp: resolved_user_def split: option.splits if_splits)

lemma drain_chat_then:
  assumes q: "jobs s = []" and r: "resolved_chat env chatID s = Some (a, s1)"
  shows "drain env (chat_then (fetchChat chatID False s) k) = drain env (run_chat_then env a k s1)"
proof (cases "coll_get (cache_chats s) chatID")
  case (Some b)
  with r have "b = a" "s1 = s" by (simp_all add: resolved_chat_def)
  with Some q show ?thesis
    by (simp add: fetchChat_def chat_then_def drain_single run_task_def)
next
  case None
  with r obtain p where p: "directThread env chatID = Some p"
    and c: "chat_created env chatID p s = (a, s1)"
    by (auto simp: resolved_chat_def split: option.splits)
  from resolved_chat_frame(1) [OF r] q have q1: "jobs s1 = []" by simp
  from None q p c have "drain env (chat_then (fetchChat chatID False s) k)
      = drain env (enqueue (ChatReady a k) s1)"
    by (simp add: fetchChat_def chat_then_def drain_single run_task_def)
  also have "\<dots> = drain env (run_chat_then env a k s1)"
    using q1 by (simp add: drain_single run_task_def)
  finally show ?thesis .
qed

lemma drain_user_then:
  assumes q: "jobs s = []" and r: "resolved_user env query s = Some (u, s1)"
  shows "drain env (user_then (fetchUser env query s) k) = drain env (run_user_then u k s1)"
proof -
  from resolved_user_frame(1) [OF r] q have q1: "jobs s1 = []" by simp
  have known: "drain env (user_then (fetchUser_id userID s) k) = drain env (run_user_then u k s1)"
    if i: "(if isID env query then Some query else getIdByUsername env query) = Some userID"
    for userID
  proof (cases "coll_get (cache_users s) userID")
    case (Some w)
    with r i have "w = u" "s1 = s" by (simp_all add: resolved_user_def)
    with Some q show ?thesis
      by (simp add: fetchUser_id_def user_then_def drain_single run_task_def)
  next
    case None
    with r i obtain p where p: "user_info env userID = Some p" and u: "u = new_User env p"
      and s1: "s1 = s\<lparr>cache_users := coll_set userID (new_User env p) (cache_users s)\<rparr>"
      by (auto simp: resolved_user_def split: option.splits)
    from None q p u s1 have "drain env (user_then (fetchUser_id userID s) k)
        = drain env (enqueue (UserReady u k) s1)"
      by (simp add: fetchUser_id_def user_then_def drain_single run_task_def Let_def)
    also have "\<dots> = drain env (run_user_then u k s1)"
      using q1 by (simp add: drain_single run_task_def)
    finally show ?thesis .
  qed
  show ?thesis
  proof (cases "isID env query")
    case True
    with known [of query] show ?thesis by (simp add: fetchUser_def)
  next
    case False
    with r obtain userID where g: "getIdByUsername env query = Some userID"
      by (auto simp: resolved_user_def split: option.splits)
    with False q have "drain env (user_then (fetchUser env query s) k)
        = drain env (user_then (fetchUser_id userID s) k)"
      by (simp add: fetchUser_def user_then_def drain_single run_task_def)
    with known [of userID] False g show ?thesis by simp
  qed
qed

lemma emitted_emit [simp]: "emitted (emit e s) = emitted s @ [e]"
  by (simp add: emit_def)

lemma chat_at_emit [simp]: "chat_at (emit e s) a = chat_at s a"
  by (simp add: chat_at_def emit_def)

lemma chat_at_same_heap: "chat_heap s' = chat_heap s \<Longrightarrow> chat_at s' a = chat_at s a"
  by (simp add: chat_at_def)

lemma chat_at_store_chat:
  "chat_at s a = Some c \<Longrightarrow> chat_at (store_chat a c' s) a = Some c'"
  by (simp add: chat_at_def store_chat_def split: if_splits)

lemma drain_emit [simp]: "jobs s = [] \<Longrightarrow> drain env (emit e s) = emit e s"
  by (simp add: drain_empty)

lemma resolved_chat_example:
  "resolved_chat example_env ''1'' example_state = Some (0, example_state)"
  by (simp add: resolved_chat_def example_state_def coll_get_def)


lemma coll_keys_set [simp]: "coll_keys (coll_set k v c) = insert k (coll_keys c)"
  by (simp add: coll_keys_def coll_set_def dom_update)

lemma chats_grow_refl [simp]: "chats_grow s s"
  by (simp add: chats_grow_def)

lemma chats_grow_trans: "chats_grow s s1 \<Longrightarrow> chats_grow s1 s2 \<Longrightarrow> chats_grow s s2"
  by (auto simp: chats_grow_def)

lemma chats_grow_same:
  "cache_pendingChats s' = cache_pendingChats s \<Longrightarrow> cache_chats s' = cache_chats s
   \<Longrightarrow> chats_grow s s'"
  by (simp add: chats_grow_def)

lemma pending_subset_grow: "pending_subset s \<Longrightarrow> chats_grow s s' \<Longrightarrow> pending_subset s'"
  by (auto simp: pending_subset_def chats_grow_def)

lemma chats_grow_basic [simp]:
  "chats_grow s (emit e s)"
  "chats_grow s (emit_all es s)"
  "chats_grow s (enqueue t s)"
  "chats_grow s (reject err s)"
  "chats_grow s (store_chat a c s)"
  "chats_grow s (emit_with_chat a f s)"
  "chats_grow s (s\<lparr>jobs := ts\<rparr>)"
  "chats_grow s (s\<lparr>eventsToReplay := b\<rparr>)"
  "chats_grow s (s\<lparr>ready := r\<rparr>)"
  by (simp_all add: chats_grow_def emit_def emit_all_def enqueue_def reject_def store_chat_def
      emit_with_chat_def split: option.splits)

lemma chats_grow_after:
  "chats_grow s s1 \<Longrightarrow> chats_grow s (emit e s1)"
  "chats_grow s s1 \<Longrightarrow> chats_grow s (enqueue t s1)"
  "chats_grow s s1 \<Longrightarrow> chats_grow s (reject err s1)"
  "chats_grow s s1 \<Longrightarrow> chats_grow s (store_chat a c s1)"
  by (simp_all add: chats_grow_def emit_def enqueue_def reject_def store_chat_def)

lemma chats_grow_chat_then [simp]: "chats_grow s (chat_then (fetchChat chatID force s) k)"
  by (simp add: chat_then_def fetchChat_def split: option.splits)

lemma chats_grow_user_then_id [simp]: "chats_grow s (user_then (fetchUser_id userID s) k)"
  by (simp add: user_then_def fetchUser_id_def split: option.splits)

lemma chats_grow_user_then [simp]: "chats_grow s (user_then (fetchUser env query s) k)"
  by (simp add: fetchUser_def) (simp add: user_then_def)

lemma chats_grow_user_then_after:
  "chats_grow s s1 \<Longrightarrow> chats_grow s (user_then (fetchUser env query s1) k)"
  using chats_grow_user_then chats_grow_trans by blast

lemma chats_grow_replace_thread [simp]:
  "chats_grow s (state_of (replace_thread env threadID v s))"
proof -
  have "chats_grow s (emit_all es (store_chat a c s))" for es a c
    by (simp add: chats_grow_def emit_all_def store_chat_def)
  moreover have "chats_grow s (s\<lparr>chat_heap := h, cache_chats := coll_set k a (cache_chats s)\<rparr>)"
    for h k a
    by (auto simp: chats_grow_def)
  ultimately show ?thesis
    by (simp add: replace_thread_def Let_def alloc_chat_def split: option.splits)
qed

lemma chats_grow_handle_op [simp]: "chats_grow s (state_of (handle_op env d s))"
  by (simp add: handle_op_def handle_replace_def handle_add_def handle_remove_def
      split: option.splits)

lemma chats_grow_handle_ops [simp]: "chats_grow s (handle_ops env ds s)"
proof (induction ds arbitrary: s)
  case Nil
  show ?case by simp
next
  case (Cons x ds)
  show ?case
  proof (cases x)
    case NullEntry
    then show ?thesis by simp
  next
    case (Entry d)
    have g: "chats_grow s (state_of (handle_op env d s))" by simp
    show ?thesis
    proof (cases "handle_op env d s")
      case (Inl y)
      with g Entry show ?thesis by (cases y) (simp add: chats_grow_after)
    next
      case (Inr s')
      with g Cons.IH [of s'] Entry show ?thesis by (auto intro: chats_grow_trans)
    qed
  qed
qed

lemma chats_grow_handle_raw_message [simp]: "chats_grow s (handle_raw_message env rm s)"
  by (cases rm) (simp_all add: handle_raw_message_def)

lemma chats_grow_handle_raw_messages [simp]:
  "chats_grow s (handle_raw_messages env rawMessages s)"
  unfolding handle_raw_messages_def
proof (induction rawMessages arbitrary: s)
  case Nil
  show ?case by simp
next
  case (Cons rm rms)
  have "chats_grow s (foldl (\<lambda>s rawMessage. handle_raw_message env rawMessage s)
      (handle_raw_message env rm s) rms)"
    by (rule chats_grow_trans [OF chats_grow_handle_raw_message Cons.IH])
  then show ?case by simp
qed

lemma chats_grow_handleRealtimeReceive [simp]:
  "chats_grow s (state_of (handleRealtimeReceive env topic payload s))"
proof -
  have "chats_grow s (handle_raw_messages env rms (emit e s))" for rms e
    using chats_grow_basic(1) chats_grow_handle_raw_messages by (rule chats_grow_trans)
  then show ?thesis
    by (simp add: handleRealtimeReceive_def Let_def split: option.splits batch.splits)
qed

lemma chats_grow_handleFbnsReceive [simp]: "chats_grow s (handleFbnsReceive env data s)"
proof -
  have "chats_grow s (user_then (fetchUser env q (emit e s)) k)" for q e k
    by (rule chats_grow_user_then_after) simp
  moreover have "chats_grow s (enqueue t (emit e s))" for t e
    by (rule chats_grow_after) simp
  moreover have "chats_grow s (emit e' (emit e s))" for e e'
    by (rule chats_grow_after) simp
  ultimately show ?thesis
    by (simp add: handleFbnsReceive_def Let_def split: option.splits)
qed

lemma chats_grow_receive [simp]: "chats_grow s (state_of (receive env ev s))"
  by (cases ev) (simp_all add: receive_def)

lemma chats_grow_replay: "chats_grow s (state_of (replay env i events s))"
proof (induction events arbitrary: i s)
  case Nil
  show ?case by simp
next
  case (Cons event events)
  let ?s0 = "s\<lparr>eventsToReplay := (eventsToReplay s)[i := Spent]\<rparr>"
  have s0: "chats_grow s ?s0" by simp
  show ?case
  proof (cases event)
    case (Realtime topic payload)
    have g: "chats_grow s (state_of (handleRealtimeReceive env topic payload ?s0))"
      using s0 chats_grow_handleRealtimeReceive by (rule chats_grow_trans)
    show ?thesis
    proof (cases "handleRealtimeReceive env topic payload ?s0")
      case (Inl x)
      with g Realtime show ?thesis by (simp add: Let_def)
    next
      case (Inr s1)
      with g have "chats_grow s s1" by simp
      from this Cons.IH [of s1 "Suc i"] have "chats_grow s (state_of (replay env (Suc i) events s1))"
        by (rule chats_grow_trans)
      with Realtime Inr show ?thesis by (simp add: Let_def)
    qed
  next
    case (Fbns data)
    have "chats_grow s (handleFbnsReceive env data ?s0)"
      using s0 chats_grow_handleFbnsReceive by (rule chats_grow_trans)
    from this Cons.IH [of "handleFbnsReceive env data ?s0" "Suc i"]
    have "chats_grow s (state_of (replay env (Suc i) events (handleFbnsReceive env data ?s0)))"
      by (rule chats_grow_trans)
    with Fbns show ?thesis by (simp add: Let_def)
  next
    case Spent
    from s0 Cons.IH [of ?s0 "Suc i"]
    have "chats_grow s (state_of (replay env (Suc i) events ?s0))"
      by (rule chats_grow_trans)
    with Spent show ?thesis by (simp add: Let_def)
  qed
qed

lemma chats_grow_login_ready [simp]: "chats_grow s (state_of (login_ready env s))"
proof -
  let ?s1 = "emit Connected (s\<lparr>ready := True\<rparr>)"
  have "chats_grow s ?s1" by (rule chats_grow_after) simp
  from this chats_grow_replay [of ?s1 env 0 "eventsToReplay ?s1"]
  have g: "chats_grow s (state_of (replay env 0 (eventsToReplay ?s1) ?s1))"
    by (rule chats_grow_trans)
  show ?thesis
  proof (cases "replay env 0 (eventsToReplay ?s1) ?s1")
    case (Inl x)
    with g show ?thesis by (simp add: login_ready_def Let_def)
  next
    case (Inr s2)
    with g have "chats_grow s s2" by simp
    then have "chats_grow s (s2\<lparr>eventsToReplay := []\<rparr>)" by (simp add: chats_grow_def)
    with Inr show ?thesis by (simp add: login_ready_def Let_def)
  qed
qed

lemma chats_grow_createChat [simp]: "chats_grow s (createChat env p s)"
  by (simp add: createChat_def Let_def alloc_chat_def chats_grow_def) auto

lemma chats_grow_chat_created: "chat_created env chatID p s = (a, s1) \<Longrightarrow> chats_grow s s1"
  by (auto simp: chat_created_def alloc_chat_def chats_grow_def)

lemma chats_grow_message_replace [simp]: "chats_grow s (message_replace env a v s)"
proof -
  have "chats_grow s (user_then (fetchUser env q (store_chat a c s)) k)" for q c k
    by (rule chats_grow_user_then_after) simp
  moreover have "chats_grow s (reject e (store_chat a c s))" for e c
    by (rule chats_grow_after) simp
  ultimately show ?thesis
    by (simp add: message_replace_def Let_def split: option.splits)
qed

lemma chats_grow_admin_push [simp]: "chats_grow s (admin_push env a userID k s)"
proof -
  have "chats_grow s (user_then (fetchUser env q (store_chat a c s)) k)" for q c k
    by (rule chats_grow_user_then_after) simp
  then show ?thesis by (simp add: admin_push_def split: option.splits)
qed

lemma chats_grow_message_add [simp]: "chats_grow s (message_add env a threadID v s)"
proof -
  have "chats_grow s (emit e (store_chat a c s))" for e c
    by (rule chats_grow_after) simp
  then show ?thesis by (simp add: message_add_def Let_def split: option.splits)
qed

lemma chats_grow_message_remove [simp]: "chats_grow s (message_remove a v s)"
  by (simp add: message_remove_def split: option.splits)

lemma chats_grow_run_chat_then [simp]: "chats_grow s (run_chat_then env a k s)"
  by (cases k) (simp_all add: run_chat_then_def)

lemma chats_grow_run_user_then [simp]: "chats_grow s (run_user_then u k s)"
  by (cases k) (simp_all add: run_user_then_def)

lemma chats_grow_run_task:
  "(\<And>actionId. t \<noteq> PendingThreadsRequest actionId) \<Longrightarrow> chats_grow s (run_task env t s)"
proof (cases t)
  case (ChatCreateRequest chatID k)
  show ?thesis
  proof (cases "directThread env chatID")
    case None
    with ChatCreateRequest show ?thesis by (simp add: run_task_def)
  next
    case (Some p)
    obtain a s1 where c: "chat_created env chatID p s = (a, s1)" by (cases "chat_created env chatID p s")
    from chats_grow_chat_created [OF c] have "chats_grow s (enqueue (ChatReady a k) s1)"
      by (rule chats_grow_after)
    with ChatCreateRequest Some c show ?thesis by (simp add: run_task_def)
  qed
next
  case (ChatRefreshRequest chatID k)
  have "chats_grow s (enqueue t' (store_chat a c s))" for t' a c
    by (rule chats_grow_after) simp
  with ChatRefreshRequest show ?thesis by (simp add: run_task_def split: option.splits)
next
  case (UserInfoRequest userID k)
  have "chats_grow s (enqueue t' (s\<lparr>cache_users := us\<rparr>))" for t' us
    by (simp add: chats_grow_def enqueue_def)
  with UserInfoRequest show ?thesis by (simp add: run_task_def Let_def split: option.splits)
next
  case (PendingThreadsRequest actionId)
  assume "\<And>actionId. t \<noteq> PendingThreadsRequest actionId"
  with PendingThreadsRequest show ?thesis by blast
qed (simp_all add: run_task_def split: option.splits)

lemma pending_subset_pending_thread:
  "pending_subset s \<Longrightarrow> pending_subset (pending_thread env thread s)"
  by (auto simp: pending_subset_def pending_thread_def alloc_chat_def)

lemma pending_subset_pending_threads:
  "pending_subset s \<Longrightarrow> pending_subset (foldl (\<lambda>s thread. pending_thread env thread s) s threads)"
  by (induction threads arbitrary: s) (simp_all add: pending_subset_pending_thread)

lemma pending_subset_pending_refresh:
  "pending_subset s \<Longrightarrow> pending_subset (pending_refresh env actionId threads s)"
proof -
  assume "pending_subset s"
  then have p: "pending_subset (foldl (\<lambda>s thread. pending_thread env thread s) s threads)"
    by (rule pending_subset_pending_threads)
  have "pending_subset (emit_with_chat a f (foldl (\<lambda>s thread. pending_thread env thread s) s threads))"
    for a f
    using p by (rule pending_subset_grow) simp
  with p show ?thesis by (simp add: pending_refresh_def Let_def split: option.splits)
qed

lemma pending_subset_run_task: "pending_subset s \<Longrightarrow> pending_subset (run_task env t s)"
proof (cases "\<exists>actionId. t = PendingThreadsRequest actionId")
  case True
  assume p: "pending_subset s"
  from True obtain actionId where t: "t = PendingThreadsRequest actionId" by blast
  have "pending_subset (reject e s)" for e using p by (rule pending_subset_grow) simp
  with p t show ?thesis
    by (simp add: run_task_def pending_subset_pending_refresh split: option.splits)
next
  case False
  assume p: "pending_subset s"
  from False have "chats_grow s (run_task env t s)" by (intro chats_grow_run_task) blast
  with p show ?thesis by (rule pending_subset_grow)
qed

lemma pending_subset_load_thread:
  "pending_subset s \<Longrightarrow> pending_subset (load_thread env thread s)"
  by (auto simp: pending_subset_def load_thread_def alloc_chat_def Let_def)

lemma pending_subset_load_threads:
  "pending_subset s \<Longrightarrow> pending_subset (load_threads env threads s)"
  unfolding load_threads_def
  by (induction threads arbitrary: s) (simp_all add: pending_subset_load_thread)

lemma chats_grow_step:
  assumes "\<And>threads. act \<noteq> LoadThreads threads"
    and "\<And>actionId ts. act = RunJob \<Longrightarrow> jobs s \<noteq> PendingThreadsRequest actionId # ts"
  shows "chats_grow s (step env act s)"
proof (cases act)
  case RunJob
  show ?thesis
  proof (cases "jobs s")
    case Nil
    with RunJob show ?thesis by (simp add: step_def)
  next
    case (Cons t ts)
    with assms(2) RunJob have "t \<noteq> PendingThreadsRequest actionId" for actionId by auto
    then have "chats_grow (s\<lparr>jobs := ts\<rparr>) (run_task env t (s\<lparr>jobs := ts\<rparr>))"
      by (rule chats_grow_run_task)
    with chats_grow_basic(7) have "chats_grow s (run_task env t (s\<lparr>jobs := ts\<rparr>))"
      by (rule chats_grow_trans)
    with RunJob Cons show ?thesis by (simp add: step_def)
  qed
next
  case (LoadThreads threads)
  with assms(1) show ?thesis by blast
qed (simp_all add: step_def logout_def)

lemma pending_subset_step: "pending_subset s \<Longrightarrow> pending_subset (step env act s)"
proof -
  assume p: "pending_subset s"
  show ?thesis
  proof (cases act)
    case RunJob
    show ?thesis
    proof (cases "jobs s")
      case Nil
      with RunJob p show ?thesis by (simp add: step_def)
    next
      case (Cons t ts)
      from p have "pending_subset (s\<lparr>jobs := ts\<rparr>)" by (rule pending_subset_grow) simp
      then have "pending_subset (run_task env t (s\<lparr>jobs := ts\<rparr>))"
        by (rule pending_subset_run_task)
      with RunJob Cons show ?thesis by (simp add: step_def)
    qed
  next
    case (LoadThreads threads)
    with p show ?thesis by (simp add: step_def pending_subset_load_threads)
  next
    case (Deliver ev)
    then have "chats_grow s (step env act s)" by (intro chats_grow_step) simp_all
    with p show ?thesis by (rule pending_subset_grow)
  next
    case LoginReady
    then have "chats_grow s (step env act s)" by (intro chats_grow_step) simp_all
    with p show ?thesis by (rule pending_subset_grow)
  next
    case Logout
    then have "chats_grow s (step env act s)" by (intro chats_grow_step) simp_all
    with p show ?thesis by (rule pending_subset_grow)
  next
    case (CreateChat threadPayload)
    then have "chats_grow s (step env act s)" by (intro chats_grow_step) simp_all
    with p show ?thesis by (rule pending_subset_grow)
  next
    case (FetchChat chatID force)
    then have "chats_grow s (step env act s)" by (intro chats_grow_step) simp_all
    with p show ?thesis by (rule pending_subset_grow)
  next
    case (FetchUser query)
    then have "chats_grow s (step env act s)" by (intro chats_grow_step) simp_all
    with p show ?thesis by (rule pending_subset_grow)
  qed
qed

lemma pending_subset_steps:
  "pending_subset s \<Longrightarrow> pending_subset (foldl (\<lambda>s act. step env act s) s acts)"
  by (induction acts arbitrary: s) (simp_all add: pending_subset_step)

lemma pending_subset_new_client: "pending_subset new_client"
  by (simp add: pending_subset_def new_client_def coll_keys_def)

lemma refreshing_state_caches:
  "cache_pendingChats refreshing_state = [(''3'', 1)]"
  "cache_chats refreshing_state = [(''1'', 0), (''3'', 1)]"
  "jobs refreshing_state = []"
  by (simp_all add: refreshing_state_def step_def enqueue_def example_state_def run_task_def
      example_env_def pending_refresh_def pending_thread_def alloc_chat_def coll_set_def
      coll_get_def emit_with_chat_def chat_at_def emit_def Let_def)

lemma with_buffer_simps [simp]:
  "with_buffer b (Inl (e, s)) = Inl (e, s\<lparr>eventsToReplay := b\<rparr>)"
  "with_buffer b (Inr s) = Inr (s\<lparr>eventsToReplay := b\<rparr>)"
  by (simp_all add: with_buffer_def)

lemma state_of_with_buffer [simp]:
  "state_of (with_buffer b r) = (state_of r)\<lparr>eventsToReplay := b\<rparr>"
  by (cases r) (auto simp: with_buffer_def state_of_def)

lemma buffer_basic [simp]:
  "emit e (s\<lparr>eventsToReplay := b\<rparr>) = (emit e s)\<lparr>eventsToReplay := b\<rparr>"
  "emit_all es (s\<lparr>eventsToReplay := b\<rparr>) = (emit_all es s)\<lparr>eventsToReplay := b\<rparr>"
  "enqueue t (s\<lparr>eventsToReplay := b\<rparr>) = (enqueue t s)\<lparr>eventsToReplay := b\<rparr>"
  "reject err (s\<lparr>eventsToReplay := b\<rparr>) = (reject err s)\<lparr>eventsToReplay := b\<rparr>"
  "store_chat a c (s\<lparr>eventsToReplay := b\<rparr>) = (store_chat a c s)\<lparr>eventsToReplay := b\<rparr>"
  "chat_at (s\<lparr>eventsToReplay := b\<rparr>) a = chat_at s a"
  by (simp_all add: emit_def emit_all_def enqueue_def reject_def store_chat_def chat_at_def)

lemma buffer_chat_then [simp]:
  "chat_then (fetchChat chatID force (s\<lparr>eventsToReplay := b\<rparr>)) k
     = (chat_then (fetchChat chatID force s) k)\<lparr>eventsToReplay := b\<rparr>"
  by (simp add: chat_then_def fetchChat_def split: option.splits)

lemma buffer_user_then [simp]:
  "user_then (fetchUser env query (s\<lparr>eventsToReplay := b\<rparr>)) k
     = (user_then (fetchUser env query s) k)\<lparr>eventsToReplay := b\<rparr>"
  by (simp add: user_then_def fetchUser_def fetchUser_id_def split: option.splits)

lemma buffer_replace_thread [simp]:
  "replace_thread env threadID v (s\<lparr>eventsToReplay := b\<rparr>)
     = with_buffer b (replace_thread env threadID v s)"
  by (simp add: replace_thread_def Let_def alloc_chat_def split: option.splits)

lemma buffer_handle_op [simp]:
  "handle_op env d (s\<lparr>eventsToReplay := b\<rparr>) = with_buffer b (handle_op env d s)"
  by (simp add: handle_op_def handle_replace_def handle_add_def handle_remove_def
      split: option.splits)

lemma buffer_handle_ops [simp]:
  "handle_ops env ds (s\<lparr>eventsToReplay := b\<rparr>) = (handle_ops env ds s)\<lparr>eventsToReplay := b\<rparr>"
proof (induction ds arbitrary: s)
  case Nil
  show ?case by simp
next
  case (Cons x ds)
  show ?case
  proof (cases x)
    case NullEntry
    then show ?thesis by simp
  next
    case (Entry d)
    show ?thesis
    proof (cases "handle_op env d s")
      case (Inl y)
      with Entry show ?thesis by (cases y) simp
    next
      case (Inr s')
      with Cons.IH [of s'] Entry show ?thesis by simp
    qed
  qed
qed

lemma buffer_handle_raw_message [simp]:
  "handle_raw_message env rm (s\<lparr>eventsToReplay := b\<rparr>)
     = (handle_raw_message env rm s)\<lparr>eventsToReplay := b\<rparr>"
  by (cases rm) (simp_all add: handle_raw_message_def)

lemma buffer_handle_raw_messages [simp]:
  "handle_raw_messages env rms (s\<lparr>eventsToReplay := b\<rparr>)
     = (handle_raw_messages env rms s)\<lparr>eventsToReplay := b\<rparr>"
  unfolding handle_raw_messages_def
  by (induction rms arbitrary: s) simp_all

lemma buffer_receive:
  "ready s \<Longrightarrow> receive env ev (s\<lparr>eventsToReplay := b\<rparr>) = with_buffer b (receive env ev s)"
  by (cases ev)
     (simp_all add: receive_def handleRealtimeReceive_def handleFbnsReceive_def Let_def
        split: option.splits batch.splits)

lemma ready_basic [simp]:
  "ready (emit e s) = ready s"
  "ready (emit_all es s) = ready s"
  "ready (enqueue t s) = ready s"
  "ready (reject err s) = ready s"
  "ready (store_chat a c s) = ready s"
  "ready (chat_then (fetchChat chatID force s) k) = ready s"
  "ready (user_then (fetchUser env query s) k') = ready s"
  by (simp_all add: emit_def emit_all_def enqueue_def reject_def store_chat_def chat_then_def
      fetchChat_def user_then_def fetchUser_def fetchUser_id_def split: option.splits)

lemma ready_replace_thread [simp]:
  "ready (state_of (replace_thread env threadID v s)) = ready s"
  by (simp add: replace_thread_def Let_def alloc_chat_def split: option.splits)

lemma ready_handle_op [simp]: "ready (state_of (handle_op env d s)) = ready s"
  by (simp add: handle_op_def handle_replace_def handle_add_def handle_remove_def
      split: option.splits)

lemma ready_handle_ops [simp]: "ready (handle_ops env ds s) = ready s"
proof (induction ds arbitrary: s)
  case Nil
  show ?case by simp
next
  case (Cons x ds)
  show ?case
  proof (cases x)
    case NullEntry
    then show ?thesis by simp
  next
    case (Entry d)
    have g: "ready (state_of (handle_op env d s)) = ready s" by simp
    show ?thesis
    proof (cases "handle_op env d s")
      case (Inl y)
      with g Entry show ?thesis by (cases y) simp
    next
      case (Inr s')
      with g Cons.IH [of s'] Entry show ?thesis by simp
    qed
  qed
qed

lemma ready_handle_raw_message [simp]: "ready (handle_raw_message env rm s) = ready s"
  by (cases rm) (simp_all add: handle_raw_message_def)

lemma ready_handle_raw_messages [simp]: "ready (handle_raw_messages env rms s) = ready s"
  unfolding handle_raw_messages_def
  by (induction rms arbitrary: s) simp_all

lemma ready_receive [simp]: "ready (state_of (receive env ev s)) = ready s"
  by (cases ev)
     (simp_all add: receive_def handleRealtimeReceive_def handleFbnsReceive_def Let_def
        split: option.splits batch.splits)

lemma ready_receive_all [simp]: "ready (receive_all env evs s) = ready s"
  unfolding receive_all_def
  by (induction evs arbitrary: s) simp_all

lemma same_buffer: "s\<lparr>eventsToReplay := eventsToReplay s\<rparr> = s"
  by simp

lemma buffer_kept_receive:
  assumes "ready s"
  shows "eventsToReplay (state_of (receive env ev s)) = eventsToReplay s"
proof -
  from buffer_receive [OF assms, of env ev "eventsToReplay s"]
  have "receive env ev s = with_buffer (eventsToReplay s) (receive env ev s)"
    by simp
  then have "eventsToReplay (state_of (receive env ev s))
      = eventsToReplay (state_of (with_buffer (eventsToReplay s) (receive env ev s)))"
    by (rule arg_cong)
  also have "\<dots> = eventsToReplay s" by simp
  finally show ?thesis .
qed

lemma buffer_kept_receive_all:
  "ready s \<Longrightarrow> eventsToReplay (receive_all env evs s) = eventsToReplay s"
  unfolding receive_all_def
  by (induction evs arbitrary: s) (simp_all add: buffer_kept_receive)

lemma buffer_receive_all:
  "ready s \<Longrightarrow> receive_all env evs (s\<lparr>eventsToReplay := b\<rparr>)
     = (receive_all env evs s)\<lparr>eventsToReplay := b\<rparr>"
  unfolding receive_all_def
  by (induction evs arbitrary: s) (simp_all add: buffer_receive)

lemma receive_not_ready:
  "\<not> ready s \<Longrightarrow> receive env ev s = Inr (s\<lparr>eventsToReplay := eventsToReplay s @ [buffered ev]\<rparr>)"
  by (cases ev) (simp_all add: receive_def handleRealtimeReceive_def handleFbnsReceive_def
      buffered_def)

lemma receive_all_not_ready:
  "\<not> ready s \<Longrightarrow>
   receive_all env evs s = s\<lparr>eventsToReplay := eventsToReplay s @ map buffered evs\<rparr>"
  unfolding receive_all_def
  by (induction evs arbitrary: s) (simp_all add: receive_not_ready)

lemma receive_returns:
  "ready s \<Longrightarrow> \<not> throws env ev \<Longrightarrow> receive env ev s = Inr (state_of (receive env ev s))"
  by (cases ev)
     (auto simp: receive_def handleRealtimeReceive_def throws_def Let_def
        split: option.splits batch.splits)

lemma receive_throws_iff:
  "ready s \<Longrightarrow> (\<exists>e s'. receive env ev s = Inl (e, s')) \<longleftrightarrow> throws env ev"
  by (cases ev)
     (auto simp: receive_def handleRealtimeReceive_def throws_def Let_def
        split: option.splits batch.splits)

lemma replay_is_receive_all:
  assumes "ready s" and "\<forall>ev\<in>set evs. \<not> throws env ev"
  shows "\<exists>s'. replay env i (map buffered evs) s = Inr s'
           \<and> s'\<lparr>eventsToReplay := []\<rparr> = (receive_all env evs s)\<lparr>eventsToReplay := []\<rparr>"
  using assms
proof (induction evs arbitrary: s i)
  case Nil
  show ?case by (simp add: receive_all_def)
next
  case (Cons ev evs)
  let ?b = "(eventsToReplay s)[i := Spent]"
  let ?x = "state_of (receive env ev s)"
  from Cons.prems have r: "ready s" and nt: "\<not> throws env ev"
    and rest: "\<forall>ev\<in>set evs. \<not> throws env ev" by simp_all
  have rx: "ready ?x" using r by simp
  have "receive env ev (s\<lparr>eventsToReplay := ?b\<rparr>) = with_buffer ?b (receive env ev s)"
    by (rule buffer_receive [OF r])
  also have "\<dots> = Inr (?x\<lparr>eventsToReplay := ?b\<rparr>)"
    using receive_returns [OF r nt] by (metis with_buffer_simps(2))
  finally have one: "receive env ev (s\<lparr>eventsToReplay := ?b\<rparr>) = Inr (?x\<lparr>eventsToReplay := ?b\<rparr>)" .
  have "ready (?x\<lparr>eventsToReplay := ?b\<rparr>)" using rx by simp
  from Cons.IH [OF this rest, of "Suc i"] obtain s'
    where s': "replay env (Suc i) (map buffered evs) (?x\<lparr>eventsToReplay := ?b\<rparr>) = Inr s'"
      and eq: "s'\<lparr>eventsToReplay := []\<rparr>
                = (receive_all env evs (?x\<lparr>eventsToReplay := ?b\<rparr>))\<lparr>eventsToReplay := []\<rparr>"
    by blast
  from eq have eq': "s'\<lparr>eventsToReplay := []\<rparr> = (receive_all env (ev # evs) s)\<lparr>eventsToReplay := []\<rparr>"
    by (simp add: buffer_receive_all [OF rx]) (simp add: receive_all_def)
  have "replay env i (map buffered (ev # evs)) s = Inr s'"
  proof (cases ev)
    case (FromRealtime topic payload)
    with one s' show ?thesis by (simp add: buffered_def receive_def Let_def)
  next
    case (FromFbns data)
    with one s' show ?thesis by (simp add: buffered_def receive_def Let_def)
  qed
  with eq' show ?case by blast
qed

lemmas evaluation =
  receive_all_def receive_def handleRealtimeReceive_def handleFbnsReceive_def login_ready_def
  handle_raw_messages_def handle_raw_message_def handle_op_def handle_replace_def
  handle_remove_def handle_add_def
  replace_thread_def fetchChat_def chat_then_def fetchUser_def fetchUser_id_def user_then_def
  run_task_def run_chat_then_def run_user_then_def message_remove_def
  emit_def emit_all_def enqueue_def reject_def store_chat_def chat_at_def state_of_def
  coll_get_def coll_set_def coll_has_def coll_size_def coll_find_def
  name_diff_def users_diff_def calling_diff_def truthy_def Let_def drain.simps
  example_state_def example_chat_def example_env_def example_parse_def example_patch_def
  direct_topic_def odd_push_def alice_def bob_def hello_def

text \<open>What the two ways of resolving a chat give, written out.\<close>

lemma chat_created_eq:
  "chat_created env chatID chatPayload s =
     (length (chat_heap s),
      s\<lparr>chat_heap := chat_heap s @ [new_Chat env chatID chatPayload],
        cache_chats := coll_set chatID (length (chat_heap s)) (cache_chats s)\<rparr>)"
  by (simp add: chat_created_def alloc_chat_def)

lemma resolved_chat_cached:
  "coll_get (cache_chats s) chatID = Some a \<Longrightarrow> resolved_chat env chatID s = Some (a, s)"
  by (simp add: resolved_chat_def)

lemma resolved_chat_fetched:
  assumes "coll_get (cache_chats s) chatID = None" and "directThread env chatID = Some chatPayload"
  shows "resolved_chat env chatID s =
           Some (length (chat_heap s),
                 s\<lparr>chat_heap := chat_heap s @ [new_Chat env chatID chatPayload],
                   cache_chats := coll_set chatID (length (chat_heap s)) (cache_chats s)\<rparr>)"
  using assms by (simp add: resolved_chat_def chat_created_eq)

lemma resolved_chat_cases:
  assumes "coll_get (cache_chats s) threadID = Some a \<and> chat_at s a = Some chat \<and> s1 = s
         \<or> coll_get (cache_chats s) threadID = None
           \<and> directThread env threadID = Some chatPayload
           \<and> chat = new_Chat env threadID chatPayload \<and> a = length (chat_heap s)
           \<and> s1 = s\<lparr>chat_heap := chat_heap s @ [chat],
                     cache_chats := coll_set threadID a (cache_chats s)\<rparr>"
  shows "resolved_chat env threadID s = Some (a, s1) \<and> chat_at s1 a = Some chat
      \<and> coll_get (cache_chats s1) threadID = Some a
      \<and> cache_users s1 = cache_users s \<and> emitted s1 = emitted s"
  using assms
proof
  assume "coll_get (cache_chats s) threadID = Some a \<and> chat_at s a = Some chat \<and> s1 = s"
  then show ?thesis by (simp add: resolved_chat_cached)
next
  assume "coll_get (cache_chats s) threadID = None
         \<and> directThread env threadID = Some chatPayload
         \<and> chat = new_Chat env threadID chatPayload \<and> a = length (chat_heap s)
         \<and> s1 = s\<lparr>chat_heap := chat_heap s @ [chat],
                   cache_chats := coll_set threadID a (cache_chats s)\<rparr>"
  then show ?thesis
    by (simp add: resolved_chat_fetched chat_at_def coll_get_def coll_set_def update_conv')
qed

lemma same_users: "s\<lparr>cache_users := cache_users s\<rparr> = s"
  by simp

text \<open>
  The admin branch of a \<^verbatim>\<open>remove\<close> operation, in terms of what the two fetches resolve to.
\<close>

lemma admin_remove_resolved:
  assumes "op_kind d = ''remove''"
    and "matchAdminPath env (op_path d) = Some (threadID, userID)"
    and "jobs s = []"
    and "resolved_chat env threadID s = Some (a, s1)"
    and "chat_at s1 a = Some chat"
    and "chat' = chat\<lparr>chat_adminUserIDs := chat_adminUserIDs chat @ [userID]\<rparr>"
    and "resolved_user env userID (store_chat a chat' s1) = Some (u, s2)"
  shows "drain env (state_of (handle_op env d s)) = emit (ChatAdminRemove chat' u) s2"
proof -
  have op: "handle_op env d s
      = Inr (chat_then (fetchChat threadID False s) (ThenAdminRemove userID))"
    using assms(1,2) by (simp add: handle_op_def handle_remove_def)
  from resolved_chat_frame(1) [OF assms(4)] assms(3) have q1: "jobs s1 = []" by simp
  then have q1': "jobs (store_chat a chat' s1) = []" by simp
  from resolved_user_frame(1) [OF assms(7)] q1' have q2: "jobs s2 = []" by simp
  from assms(5) have "chat_at (store_chat a chat' s1) a = Some chat'"
    by (rule chat_at_store_chat)
  with chat_at_same_heap [OF resolved_user_frame(3) [OF assms(7)], of a]
  have c2: "chat_at s2 a = Some chat'" by simp
  have "drain env (state_of (handle_op env d s))
      = drain env (admin_push env a userID (ThenChatAdminRemove a) s1)"
    using drain_chat_then [OF assms(3,4)] by (simp add: op run_chat_then_def)
  also have "\<dots> = drain env (user_then (fetchUser env userID (store_chat a chat' s1))
                        (ThenChatAdminRemove a))"
    using assms(5,6) by (simp add: admin_push_def)
  also have "\<dots> = drain env (run_user_then u (ThenChatAdminRemove a) s2)"
    by (rule drain_user_then [OF q1' assms(7)])
  also have "\<dots> = emit (ChatAdminRemove chat' u) s2"
    using c2 q2 by (simp add: run_user_then_def emit_with_chat_def)
  finally show ?thesis .
qed


text \<open>
  An element of the decoded array without a \<^verbatim>\<open>data\<close> array, and a \<^verbatim>\<open>null\<close> entry of a
  \<^verbatim>\<open>data\<close> array, fail inside the arrow function: the handler returns, one promise is
  rejected, and the elements after it are still handled.
\<close>

lemma element_without_data_rejects:
  assumes "ready s" and "topic_id topic = ''146''"
    and "parse_batch env payload = Some (Batch (NoDataList # rest))"
  shows "handleRealtimeReceive env topic payload s
           = Inr (handle_raw_messages env rest
                    (reject TypeError (emit (RawRealtime topic payload) s)))"
  using assms
  by (simp add: handleRealtimeReceive_def handle_raw_messages_def handle_raw_message_def)

lemma null_entry_rejects:
  assumes "ready s" and "topic_id topic = ''146''"
    and "parse_batch env payload = Some (Batch (DataList (NullEntry # ds) # rest))"
  shows "handleRealtimeReceive env topic payload s
           = Inr (handle_raw_messages env rest
                    (reject TypeError (emit (RawRealtime topic payload) s)))"
  using assms
  by (simp add: handleRealtimeReceive_def handle_raw_messages_def handle_raw_message_def)

section \<open>The claims\<close>

subsection \<open>C1: removing a message\<close>

text \<open>
  C1, as the code has it. A \<^verbatim>\<open>remove\<close> patch on a message path (not an admin path),
  once the chat of its thread id is resolved: when the chat's message collection holds
  the id given by the operation's value, exactly one \<^verbatim>\<open>messageDelete\<close> event is emitted,
  with the stored message, and the chat, its message collection included, stays as it
  was; when the id is absent, nothing is emitted. In both cases the state is the one the
  resolution of the chat left.
\<close>

theorem message_remove_emits_and_keeps:
  assumes "op_kind d = ''remove''"
    and "matchAdminPath env (op_path d) = None"
    and "matchMessagePath env (op_path d) = Some threadID"
    and "jobs s = []"
    and "resolved_chat env threadID s = Some (a, s1)"
    and "chat_at s1 a = Some chat"
  shows "drain env (state_of (handle_op env d s)) =
           (case coll_get (chat_messages chat) (op_value d) of
              None \<Rightarrow> s1
            | Some existing \<Rightarrow> emit (MessageDelete existing) s1)
       \<and> emitted (drain env (state_of (handle_op env d s))) =
           emitted s @ (case coll_get (chat_messages chat) (op_value d) of
                          None \<Rightarrow> []
                        | Some existing \<Rightarrow> [MessageDelete existing])
       \<and> chat_at (drain env (state_of (handle_op env d s))) a = Some chat"
proof -
  have op: "handle_op env d s
      = Inr (chat_then (fetchChat threadID False s) (ThenMessageRemove (op_value d)))"
    using assms(1-3) by (simp add: handle_op_def handle_remove_def)
  from resolved_chat_frame(1) [OF assms(5)] assms(4) have q1: "jobs s1 = []" by simp
  have "drain env (state_of (handle_op env d s)) = drain env (message_remove a (op_value d) s1)"
    using drain_chat_then [OF assms(4,5)] by (simp add: op run_chat_then_def)
  also have "\<dots> = (case coll_get (chat_messages chat) (op_value d) of
              None \<Rightarrow> s1
            | Some existing \<Rightarrow> emit (MessageDelete existing) s1)"
    using assms(6) q1 by (simp add: message_remove_def drain_empty split: option.splits)
  finally have dr: "drain env (state_of (handle_op env d s)) =
           (case coll_get (chat_messages chat) (op_value d) of
              None \<Rightarrow> s1
            | Some existing \<Rightarrow> emit (MessageDelete existing) s1)" .
  have "chat_at (drain env (state_of (handle_op env d s))) a = Some chat"
    using assms(6) by (simp add: dr split: option.splits)
  moreover have "emitted (drain env (state_of (handle_op env d s))) =
           emitted s @ (case coll_get (chat_messages chat) (op_value d) of
                          None \<Rightarrow> []
                        | Some existing \<Rightarrow> [MessageDelete existing])"
    using resolved_chat_frame(2) [OF assms(5)] by (simp add: dr emit_def split: option.splits)
  ultimately show ?thesis using dr by simp
qed

theorem message_remove_emits_and_keeps_witness:
  "jobs example_state = []
   \<and> resolved_chat example_env ''1'' example_state = Some (0, example_state)
   \<and> chat_at example_state 0 = Some example_chat
   \<and> drain example_env (state_of (handle_op example_env unsend example_state))
       = emit (MessageDelete hello) example_state
   \<and> chat_at (drain example_env (state_of (handle_op example_env unsend example_state))) 0
       = Some example_chat"
proof -
  have h1: "op_kind unsend = ''remove''" by (simp add: unsend_def)
  have h2: "matchAdminPath example_env (op_path unsend) = None"
    by (simp add: unsend_def example_env_def)
  have h3: "matchMessagePath example_env (op_path unsend) = Some ''1''"
    by (simp add: unsend_def example_env_def)
  have h4: "jobs example_state = []" by (simp add: example_state_def)
  have h6: "chat_at example_state 0 = Some example_chat"
    by (simp add: chat_at_def example_state_def)
  have m: "coll_get (chat_messages example_chat) (op_value unsend) = Some hello"
    by (simp add: coll_get_def example_chat_def unsend_def)
  from message_remove_emits_and_keeps [OF h1 h2 h3 h4 resolved_chat_example h6]
    m h4 h6 resolved_chat_example
  show ?thesis by simp
qed

text \<open>
  C1 as stated fails: after the \<^verbatim>\<open>messageDelete\<close> event the message is still in the
  chat's collection.
\<close>

theorem message_remove_leaves_message_cached:
  "emitted (drain example_env (state_of (handle_op example_env unsend example_state)))
     = [MessageDelete hello]
   \<and> chat_at (drain example_env (state_of (handle_op example_env unsend example_state))) 0
       = Some example_chat
   \<and> coll_has (chat_messages example_chat) ''10''"
  by (simp add: handle_op_def handle_remove_def unsend_def example_env_def fetchChat_def
      chat_then_def example_state_def coll_get_def coll_has_def enqueue_def drain.simps
      run_task_def run_chat_then_def message_remove_def chat_at_def example_chat_def emit_def)

subsection \<open>C2: buffering and replay\<close>

text \<open>
  C2, as the code has it. Events that arrive while the client is not ready are appended
  to the buffer and change nothing else, whatever they carry. When none of the buffered
  events makes its handler throw (none is a realtime event on topic 146 whose payload
  does not parse or parses to something that is not an array), the end of \<^verbatim>\<open>login\<close>
  runs them in arrival order through the same handlers, in one synchronous pass: the
  result is the state (caches, emitted events, queued callbacks) that delivering the
  same events one after the other to the client, ready and with an empty buffer, gives
  at that moment, the callbacks still to run. The buffer is then empty, the client is
  ready, and an event delivered from then on leaves the buffer empty.
\<close>

theorem buffered_events_replay_like_a_burst:
  "(\<not> ready s \<longrightarrow>
      receive_all env evs s = s\<lparr>eventsToReplay := eventsToReplay s @ map buffered evs\<rparr>)
   \<and> ((\<forall>ev\<in>set evs. \<not> throws env ev) \<and> eventsToReplay sb = map buffered evs \<longrightarrow>
        login_ready env sb
          = Inr (receive_all env evs (emit Connected (sb\<lparr>ready := True, eventsToReplay := []\<rparr>)))
        \<and> ready (state_of (login_ready env sb))
        \<and> eventsToReplay (state_of (login_ready env sb)) = []
        \<and> (\<forall>ev. eventsToReplay (state_of (receive env ev (state_of (login_ready env sb))))
                 = []))"
proof (intro conjI impI)
  assume "\<not> ready s"
  then show "receive_all env evs s = s\<lparr>eventsToReplay := eventsToReplay s @ map buffered evs\<rparr>"
    by (rule receive_all_not_ready)
next
  let ?c = "emit Connected (sb\<lparr>ready := True\<rparr>)"
  let ?live = "emit Connected (sb\<lparr>ready := True, eventsToReplay := []\<rparr>)"
  let ?b = "map buffered evs"
  assume h: "(\<forall>ev\<in>set evs. \<not> throws env ev) \<and> eventsToReplay sb = ?b"
  then have nt: "\<forall>ev\<in>set evs. \<not> throws env ev" and buf: "eventsToReplay sb = ?b"
    by (rule conjunct1, rule conjunct2)
  have rc: "ready ?c" by simp
  have bc: "eventsToReplay ?c = ?b" using buf by (simp add: emit_def)
  have lc: "?live = ?c\<lparr>eventsToReplay := []\<rparr>" by (simp add: emit_def)
  from replay_is_receive_all [OF rc nt, of 0] obtain s'
    where s': "replay env 0 ?b ?c = Inr s'"
      and eq: "s'\<lparr>eventsToReplay := []\<rparr> = (receive_all env evs ?c)\<lparr>eventsToReplay := []\<rparr>"
    by blast
  have "receive_all env evs ?live = receive_all env evs (?c\<lparr>eventsToReplay := []\<rparr>)"
    by (simp only: lc)
  also have "\<dots> = (receive_all env evs ?c)\<lparr>eventsToReplay := []\<rparr>"
    by (rule buffer_receive_all [OF rc])
  finally have fin: "s'\<lparr>eventsToReplay := []\<rparr> = receive_all env evs ?live"
    using eq by simp
  have "login_ready env sb = Inr (s'\<lparr>eventsToReplay := []\<rparr>)"
    using s' bc by (simp add: login_ready_def Let_def del: buffer_basic)
  then show lr: "login_ready env sb = Inr (receive_all env evs ?live)"
    by (simp only: fin)
  have r: "ready (receive_all env evs ?live)" by simp
  have e: "eventsToReplay (receive_all env evs ?live) = []"
    using buffer_kept_receive_all [of ?live env evs] by (simp add: emit_def)
  from r show "ready (state_of (login_ready env sb))" by (simp only: lr state_of_Inr)
  from e show "eventsToReplay (state_of (login_ready env sb)) = []" by (simp only: lr state_of_Inr)
  show "\<forall>ev. eventsToReplay (state_of (receive env ev (state_of (login_ready env sb)))) = []"
    using buffer_kept_receive [OF r, of env] e by (simp only: lr state_of_Inr) simp
qed

theorem buffered_events_replay_like_a_burst_witness:
  "\<not> ready cold_state
   \<and> \<not> throws example_env (FromRealtime direct_topic ''unsend'')
   \<and> \<not> throws example_env (FromFbns odd_push)
   \<and> receive_all example_env unsend_burst cold_state
       = cold_state\<lparr>eventsToReplay := [Realtime direct_topic ''unsend'', Fbns odd_push]\<rparr>
   \<and> login_ready example_env (receive_all example_env unsend_burst cold_state)
       = Inr (receive_all example_env unsend_burst (emit Connected example_state))
   \<and> emitted example_state = []
   \<and> emitted (state_of (login_ready example_env (receive_all example_env unsend_burst cold_state)))
       = [Connected, RawRealtime direct_topic ''unsend'', RawFbns odd_push, Push odd_push]
   \<and> jobs (state_of (login_ready example_env (receive_all example_env unsend_burst cold_state)))
       = [ChatReady 0 (ThenMessageRemove ''10'')]
   \<and> eventsToReplay
        (state_of (login_ready example_env (receive_all example_env unsend_burst cold_state))) = []
   \<and> eventsToReplay
        (state_of (receive example_env (FromFbns odd_push)
           (state_of (login_ready example_env (receive_all example_env unsend_burst cold_state)))))
       = []"
proof -
  have h1: "\<not> ready cold_state" and h2: "eventsToReplay cold_state = []"
    by (simp_all add: cold_state_def example_state_def)
  have t: "\<not> throws example_env (FromRealtime direct_topic ''unsend'')"
      "\<not> throws example_env (FromFbns odd_push)"
    by (simp_all add: throws_def example_env_def)
  then have h3: "\<forall>ev\<in>set unsend_burst. \<not> throws example_env ev"
    by (simp add: unsend_burst_def)
  let ?sb = "receive_all example_env unsend_burst cold_state"
  let ?replayed = "state_of (login_ready example_env ?sb)"
  let ?live = "receive_all example_env unsend_burst
                 (emit Connected (?sb\<lparr>ready := True, eventsToReplay := []\<rparr>))"
  have b: "map buffered unsend_burst = [Realtime direct_topic ''unsend'', Fbns odd_push]"
    by (simp add: unsend_burst_def buffered_def)
  from buffered_events_replay_like_a_burst
         [where s = cold_state and env = example_env and evs = unsend_burst] h1 h2
  have c1: "?sb = cold_state\<lparr>eventsToReplay := map buffered unsend_burst\<rparr>"
    by simp
  then have "eventsToReplay ?sb = map buffered unsend_burst" by simp
  with buffered_events_replay_like_a_burst
         [where sb = ?sb and env = example_env and evs = unsend_burst] h3
  have c2: "login_ready example_env ?sb = Inr ?live"
    and c3: "eventsToReplay ?replayed = []"
    and c4: "eventsToReplay (state_of (receive example_env (FromFbns odd_push) ?replayed)) = []"
    by blast+
  have "emit Connected (?sb\<lparr>ready := True, eventsToReplay := []\<rparr>)
      = emit Connected example_state"
    by (simp only: c1) (simp add: cold_state_def example_state_def emit_def)
  with c2 have c2': "login_ready example_env ?sb
      = Inr (receive_all example_env unsend_burst (emit Connected example_state))"
    by simp
  have r: "?replayed = receive_all example_env unsend_burst (emit Connected example_state)"
    by (simp only: c2' state_of_Inr)
  have live: "emitted (receive_all example_env unsend_burst (emit Connected example_state))
               = [Connected, RawRealtime direct_topic ''unsend'', RawFbns odd_push, Push odd_push]"
      "jobs (receive_all example_env unsend_burst (emit Connected example_state))
         = [ChatReady 0 (ThenMessageRemove ''10'')]"
    by (simp_all add: unsend_burst_def evaluation)
  have c5: "emitted ?replayed
               = [Connected, RawRealtime direct_topic ''unsend'', RawFbns odd_push, Push odd_push]"
    and c6: "jobs ?replayed = [ChatReady 0 (ThenMessageRemove ''10'')]"
    by (simp_all only: r live)
  from c1 have c1': "?sb
      = cold_state\<lparr>eventsToReplay := [Realtime direct_topic ''unsend'', Fbns odd_push]\<rparr>"
    by (simp only: b)
  have e0: "emitted example_state = []" by (simp add: example_state_def)
  from h1 t c1' c2' c3 c4 c5 c6 e0 show ?thesis by blast
qed

text \<open>
  The hypothesis on the buffered events is the exact one: for a ready client,
  \<open>throws env ev\<close> holds if and only if the handler of \<open>ev\<close> throws
  (lemma \<open>receive_throws_iff\<close>).

  C2 as stated fails: a buffered realtime event with an unparseable payload ends the
  replay loop. The events behind it are never handled (the \<^verbatim>\<open>push\<close> event a ready
  client emits for the second one is missing) and the buffer is not emptied.
\<close>

theorem failed_replay_drops_buffered_events:
  "emitted (receive_all example_env broken_burst example_state)
     = [RawRealtime direct_topic ''{junk'', RawFbns odd_push, Push odd_push]
   \<and> login_ready example_env (receive_all example_env broken_burst cold_state)
       = Inl (SyntaxError, state_of (login_ready example_env
                                      (receive_all example_env broken_burst cold_state)))
   \<and> emitted (state_of (login_ready example_env (receive_all example_env broken_burst cold_state)))
       = [Connected, RawRealtime direct_topic ''{junk'']
   \<and> eventsToReplay
        (state_of (login_ready example_env (receive_all example_env broken_burst cold_state)))
       = [Spent, Fbns odd_push]"
  by (simp add: broken_burst_def cold_state_def evaluation)

text \<open>
  The callbacks of replayed events run after the whole loop; for events handled as they
  arrive, each one's callbacks run before the next event. So the order of the emitted
  events can differ.
\<close>

lemma replay_runs_callbacks_after_the_loop:
  "emitted (drain example_env
     (state_of (login_ready example_env (receive_all example_env unsend_rename cold_state))))
     = [Connected, RawRealtime direct_topic ''unsend'', RawRealtime direct_topic ''rename'',
        ChatNameUpdate (example_chat\<lparr>chat_name := Some ''B''\<rparr>) (Some ''A'') (Some ''B''),
        MessageDelete hello]
   \<and> emitted (foldl (\<lambda>s ev. drain example_env (state_of (receive example_env ev s)))
        example_state unsend_rename)
     = [RawRealtime direct_topic ''unsend'', MessageDelete hello,
        RawRealtime direct_topic ''rename'',
        ChatNameUpdate (example_chat\<lparr>chat_name := Some ''B''\<rparr>) (Some ''A'') (Some ''B'')]"
  by (simp add: unsend_rename_def cold_state_def evaluation)

subsection \<open>C3: malformed input\<close>




subsection \<open>C4: a membership change by one user\<close>

text \<open>
  C4. A \<^verbatim>\<open>replace\<close> patch on a thread path, for a chat in the cache, whose merged member
  collection has exactly one key \<open>x\<close> more than the collection before the merge, emits
  exactly one membership event, \<^verbatim>\<open>chatUserAdd\<close> with the merged chat and the user stored
  under \<open>x\<close>; when it has exactly one key less, it emits exactly one membership event,
  \<^verbatim>\<open>chatUserRemove\<close> with the merged chat and the user that was stored under \<open>x\<close>. Both
  member collections are keyed by user id.
\<close>

theorem membership_change_by_one_emits_one_event:
  assumes "op_kind d = ''replace''"
    and "matchInboxThreadPath env (op_path d) = Some threadID"
    and "coll_get (cache_chats s) threadID = Some a"
    and "chat_at s a = Some oldChat"
    and "JSON_parse env (op_value d) = Some payload"
    and "chat = Chat_patch env payload oldChat"
    and "keyed_by_id (chat_users oldChat)" and "keyed_by_id (chat_users chat)"
  shows "(coll_keys (chat_users chat) = insert x (coll_keys (chat_users oldChat))
            \<and> x \<notin> coll_keys (chat_users oldChat) \<longrightarrow>
          (\<exists>u. coll_get (chat_users chat) x = Some u
             \<and> handle_op env d s
                 = Inr (emit_all (name_diff oldChat chat @ [ChatUserAdd chat u]
                                    @ calling_diff oldChat chat)
                          (store_chat a chat s))
             \<and> filter is_member_event
                   (name_diff oldChat chat @ [ChatUserAdd chat u] @ calling_diff oldChat chat)
                 = [ChatUserAdd chat u]))
       \<and> (coll_keys (chat_users oldChat) = insert x (coll_keys (chat_users chat))
            \<and> x \<notin> coll_keys (chat_users chat) \<longrightarrow>
          (\<exists>u. coll_get (chat_users oldChat) x = Some u
             \<and> handle_op env d s
                 = Inr (emit_all (name_diff oldChat chat @ [ChatUserRemove chat u]
                                    @ calling_diff oldChat chat)
                          (store_chat a chat s))
             \<and> filter is_member_event
                   (name_diff oldChat chat @ [ChatUserRemove chat u] @ calling_diff oldChat chat)
                 = [ChatUserRemove chat u]))"
proof -
  let ?evs = "name_diff oldChat chat @ users_diff oldChat chat @ calling_diff oldChat chat"
  have op: "handle_op env d s = Inr (emit_all ?evs (store_chat a chat s))"
    using handle_op_replace_cached [OF assms(1-5)] assms(6) by simp
  have d_old: "distinct (map fst (chat_users oldChat))"
    and d_new: "distinct (map fst (chat_users chat))"
    using assms(7,8) by (simp_all add: keyed_by_id_def)
  have grown: "\<exists>u. coll_get (chat_users chat) x = Some u
             \<and> handle_op env d s
                 = Inr (emit_all (name_diff oldChat chat @ [ChatUserAdd chat u]
                                    @ calling_diff oldChat chat)
                          (store_chat a chat s))
             \<and> filter is_member_event
                   (name_diff oldChat chat @ [ChatUserAdd chat u] @ calling_diff oldChat chat)
                 = [ChatUserAdd chat u]"
    if g: "coll_keys (chat_users chat) = insert x (coll_keys (chat_users oldChat))"
      and x: "x \<notin> coll_keys (chat_users oldChat)"
  proof -
    from coll_find_new_key [OF assms(8) g x] obtain u
      where u: "coll_get (chat_users chat) x = Some u"
        "coll_find (\<lambda>u. \<not> coll_has (chat_users oldChat) (user_id u)) (chat_users chat) = Some u"
      by auto
    have "coll_size (chat_users oldChat) < coll_size (chat_users chat)"
      by (rule coll_size_grows [OF d_new d_old g x])
    with u have ud: "users_diff oldChat chat = [ChatUserAdd chat u]"
      by (simp add: users_diff_def)
    with u(1) op show ?thesis by (intro exI [of _ u]) simp
  qed
  have shrunk: "\<exists>u. coll_get (chat_users oldChat) x = Some u
             \<and> handle_op env d s
                 = Inr (emit_all (name_diff oldChat chat @ [ChatUserRemove chat u]
                                    @ calling_diff oldChat chat)
                          (store_chat a chat s))
             \<and> filter is_member_event
                   (name_diff oldChat chat @ [ChatUserRemove chat u] @ calling_diff oldChat chat)
                 = [ChatUserRemove chat u]"
    if g: "coll_keys (chat_users oldChat) = insert x (coll_keys (chat_users chat))"
      and x: "x \<notin> coll_keys (chat_users chat)"
  proof -
    from coll_find_new_key [OF assms(7) g x] obtain u
      where u: "coll_get (chat_users oldChat) x = Some u"
        "coll_find (\<lambda>u. \<not> coll_has (chat_users chat) (user_id u)) (chat_users oldChat) = Some u"
      by auto
    have lt: "coll_size (chat_users chat) < coll_size (chat_users oldChat)"
      by (rule coll_size_grows [OF d_old d_new g x])
    with u have ud: "users_diff oldChat chat = [ChatUserRemove chat u]"
      by (simp add: users_diff_def)
    with u(1) op show ?thesis by (intro exI [of _ u]) simp
  qed
  from grown shrunk show ?thesis by blast
qed

theorem membership_change_by_one_emits_one_event_witness:
  "keyed_by_id (chat_users example_chat)
   \<and> coll_keys (chat_users (example_chat\<lparr>chat_users := [(''7'', alice), (''8'', bob)]\<rparr>))
       = insert ''8'' (coll_keys (chat_users example_chat))
   \<and> filter is_member_event (emitted (state_of (handle_op example_env add_bob example_state)))
       = [ChatUserAdd (example_chat\<lparr>chat_users := [(''7'', alice), (''8'', bob)]\<rparr>) bob]
   \<and> coll_keys (chat_users example_chat)
       = insert ''7'' (coll_keys (chat_users (example_chat\<lparr>chat_users := []\<rparr>)))
   \<and> filter is_member_event (emitted (state_of (handle_op example_env remove_all example_state)))
       = [ChatUserRemove (example_chat\<lparr>chat_users := []\<rparr>) alice]"
proof -
  let ?grown = "example_chat\<lparr>chat_users := [(''7'', alice), (''8'', bob)]\<rparr>"
  let ?empty = "example_chat\<lparr>chat_users := []\<rparr>"
  have p: "matchInboxThreadPath example_env (op_path add_bob) = Some ''1''"
      "matchInboxThreadPath example_env (op_path remove_all) = Some ''1''"
    by (simp_all add: example_env_def add_bob_def remove_all_def)
  have c: "coll_get (cache_chats example_state) ''1'' = Some 0"
      "chat_at example_state 0 = Some example_chat"
    by (simp_all add: example_state_def coll_get_def chat_at_def)
  have v: "JSON_parse example_env (op_value add_bob)
             = Some (JThread ''1'' None (Some [alice, bob]) None False)"
      "JSON_parse example_env (op_value remove_all) = Some (JThread ''1'' None (Some []) None False)"
    by (simp_all add: example_env_def example_parse_def add_bob_def remove_all_def)
  have m: "?grown = Chat_patch example_env (JThread ''1'' None (Some [alice, bob]) None False) example_chat"
      "?empty = Chat_patch example_env (JThread ''1'' None (Some []) None False) example_chat"
    by (simp_all add: example_env_def example_patch_def example_chat_def alice_def bob_def)
  have k: "keyed_by_id (chat_users example_chat)" "keyed_by_id (chat_users ?grown)"
      "keyed_by_id (chat_users ?empty)"
    by (simp_all add: keyed_by_id_def example_chat_def alice_def bob_def)
  have g: "coll_keys (chat_users ?grown) = insert ''8'' (coll_keys (chat_users example_chat))
           \<and> ''8'' \<notin> coll_keys (chat_users example_chat)"
    by (auto simp: coll_keys_def example_chat_def)
  have r: "coll_keys (chat_users example_chat) = insert ''7'' (coll_keys (chat_users ?empty))
           \<and> ''7'' \<notin> coll_keys (chat_users ?empty)"
    by (auto simp: coll_keys_def example_chat_def)
  from membership_change_by_one_emits_one_event [of add_bob example_env "''1''" example_state 0 example_chat
      _ ?grown "''8''", OF _ p(1) c v(1) m(1) k(1,2)] g
  obtain u where u: "coll_get (chat_users ?grown) ''8'' = Some u"
    and "handle_op example_env add_bob example_state
           = Inr (emit_all (name_diff example_chat ?grown @ [ChatUserAdd ?grown u]
                              @ calling_diff example_chat ?grown)
                    (store_chat 0 ?grown example_state))"
    and "filter is_member_event
           (name_diff example_chat ?grown @ [ChatUserAdd ?grown u]
              @ calling_diff example_chat ?grown) = [ChatUserAdd ?grown u]"
    by (auto simp: add_bob_def)
  moreover from u have "u = bob" by (simp add: coll_get_def)
  ultimately have one: "filter is_member_event
      (emitted (state_of (handle_op example_env add_bob example_state))) = [ChatUserAdd ?grown bob]"
    by (simp add: example_state_def)
  from membership_change_by_one_emits_one_event [of remove_all example_env "''1''" example_state 0 example_chat
      _ ?empty "''7''", OF _ p(2) c v(2) m(2) k(1,3)] r
  obtain w where w: "coll_get (chat_users example_chat) ''7'' = Some w"
    and "handle_op example_env remove_all example_state
           = Inr (emit_all (name_diff example_chat ?empty @ [ChatUserRemove ?empty w]
                              @ calling_diff example_chat ?empty)
                    (store_chat 0 ?empty example_state))"
    and "filter is_member_event
           (name_diff example_chat ?empty @ [ChatUserRemove ?empty w]
              @ calling_diff example_chat ?empty) = [ChatUserRemove ?empty w]"
    by (auto simp: remove_all_def)
  moreover from w have "w = alice" by (simp add: coll_get_def example_chat_def)
  ultimately have two: "filter is_member_event
      (emitted (state_of (handle_op example_env remove_all example_state)))
        = [ChatUserRemove ?empty alice]"
    by (simp add: example_state_def)
  from k(1) g r one two show ?thesis by simp
qed

subsection \<open>C5: a change of name only\<close>

text \<open>
  C5. A \<^verbatim>\<open>replace\<close> patch on a thread path, for a chat in the cache, that changes the
  name and leaves the member keys and the calling flag as they were, emits exactly one
  event, \<^verbatim>\<open>chatNameUpdate\<close> with the merged chat, the old and the new name; so no
  membership and no call event.
\<close>

theorem rename_only_emits_one_name_update:
  assumes "op_kind d = ''replace''"
    and "matchInboxThreadPath env (op_path d) = Some threadID"
    and "coll_get (cache_chats s) threadID = Some a"
    and "chat_at s a = Some oldChat"
    and "JSON_parse env (op_value d) = Some payload"
    and "chat = Chat_patch env payload oldChat"
    and "chat_name chat \<noteq> chat_name oldChat"
    and "distinct (map fst (chat_users oldChat))" and "distinct (map fst (chat_users chat))"
    and "coll_keys (chat_users chat) = coll_keys (chat_users oldChat)"
    and "chat_calling chat = chat_calling oldChat"
  shows "handle_op env d s =
           Inr (emit (ChatNameUpdate chat (chat_name oldChat) (chat_name chat))
                  (store_chat a chat s))"
proof -
  have "coll_size (chat_users chat) = coll_size (chat_users oldChat)"
    using assms(8,9,10) by (simp add: coll_size_card)
  then have "users_diff oldChat chat = []" by (simp add: users_diff_def)
  moreover have "calling_diff oldChat chat = []" using assms(11) by (simp add: calling_diff_def)
  moreover have "name_diff oldChat chat = [ChatNameUpdate chat (chat_name oldChat) (chat_name chat)]"
    using assms(7) by (auto simp add: name_diff_def)
  ultimately show ?thesis
    using handle_op_replace_cached [OF assms(1-5)] assms(6)
    by (simp add: emit_def emit_all_def)
qed

theorem rename_only_emits_one_name_update_witness:
  "chat_name (example_chat\<lparr>chat_name := Some ''B''\<rparr>) \<noteq> chat_name example_chat
   \<and> handle_op example_env rename_B example_state =
       Inr (emit (ChatNameUpdate (example_chat\<lparr>chat_name := Some ''B''\<rparr>) (Some ''A'') (Some ''B''))
              (store_chat 0 (example_chat\<lparr>chat_name := Some ''B''\<rparr>) example_state))"
proof -
  let ?new = "example_chat\<lparr>chat_name := Some ''B''\<rparr>"
  have m: "?new = Chat_patch example_env (JThread ''1'' (Some ''B'') None None False) example_chat"
    by (simp add: example_env_def example_patch_def example_chat_def)
  have n: "chat_name ?new \<noteq> chat_name example_chat"
    by (simp add: example_chat_def)
  have "handle_op example_env rename_B example_state =
          Inr (emit (ChatNameUpdate ?new (chat_name example_chat) (chat_name ?new))
                 (store_chat 0 ?new example_state))"
    by (rule rename_only_emits_one_name_update [where threadID = "''1''" and oldChat = example_chat
          and payload = "JThread ''1'' (Some ''B'') None None False", OF _ _ _ _ _ m n])
       (simp_all add: rename_B_def example_env_def example_parse_def example_state_def
          coll_get_def chat_at_def example_chat_def)
  with n show ?thesis by (simp add: example_chat_def)
qed

subsection \<open>C6: first sight of a thread\<close>

text \<open>
  C6. A \<^verbatim>\<open>replace\<close> patch on a thread path whose thread id is not in the chat cache
  constructs a chat from the decoded payload, stores it in the chat cache under its id,
  and emits nothing and schedules nothing.
\<close>

theorem first_sight_inserts_chat_without_event:
  assumes "op_kind d = ''replace''"
    and "matchInboxThreadPath env (op_path d) = Some threadID"
    and "\<not> coll_has (cache_chats s) threadID"
    and "JSON_parse env (op_value d) = Some payload"
    and "chat = new_Chat env threadID payload"
  shows "handle_op env d s =
           Inr (s\<lparr>chat_heap := chat_heap s @ [chat],
                  cache_chats := coll_set (chat_id chat) (length (chat_heap s)) (cache_chats s)\<rparr>)
       \<and> emitted (state_of (handle_op env d s)) = emitted s
       \<and> jobs (state_of (handle_op env d s)) = jobs s
       \<and> (\<exists>a. coll_get (cache_chats (state_of (handle_op env d s))) (chat_id chat) = Some a
              \<and> chat_at (state_of (handle_op env d s)) a = Some chat)"
proof -
  from assms(3) have n: "coll_get (cache_chats s) threadID = None"
    by (simp add: coll_has_def coll_get_def)
  have op: "handle_op env d s =
           Inr (s\<lparr>chat_heap := chat_heap s @ [chat],
                  cache_chats := coll_set (chat_id chat) (length (chat_heap s)) (cache_chats s)\<rparr>)"
    using assms(1,2,4,5) n
    by (simp add: handle_op_def handle_replace_def replace_thread_def alloc_chat_def Let_def)
  then show ?thesis
    by (simp add: coll_get_def coll_set_def update_conv' chat_at_def)
qed

theorem first_sight_inserts_chat_without_event_witness:
  "\<not> coll_has (cache_chats example_state) ''2''
   \<and> emitted (state_of (handle_op example_env new_thread_2 example_state)) = []
   \<and> coll_get (cache_chats (state_of (handle_op example_env new_thread_2 example_state))) ''2''
       = Some 1
   \<and> chat_at (state_of (handle_op example_env new_thread_2 example_state)) 1
       = Some \<lparr>chat_id = ''2'', chat_name = Some ''C'', chat_users = [(''8'', bob)],
               chat_adminUserIDs = [], chat_calling = False, chat_messages = [],
               chat_pending = False\<rparr>"
proof -
  let ?chat = "\<lparr>chat_id = ''2'', chat_name = Some ''C'', chat_users = [(''8'', bob)],
               chat_adminUserIDs = [], chat_calling = False, chat_messages = [],
               chat_pending = False\<rparr>"
  have h1: "op_kind new_thread_2 = ''replace''" by (simp add: new_thread_2_def)
  have h2: "matchInboxThreadPath example_env (op_path new_thread_2) = Some ''2''"
    by (simp add: new_thread_2_def example_env_def)
  have h3: "\<not> coll_has (cache_chats example_state) ''2''"
    by (simp add: example_state_def coll_has_def)
  have h4: "JSON_parse example_env (op_value new_thread_2)
              = Some (JThread ''2'' (Some ''C'') (Some [bob]) None False)"
    by (simp add: new_thread_2_def example_env_def example_parse_def)
  have h5: "?chat = new_Chat example_env ''2'' (JThread ''2'' (Some ''C'') (Some [bob]) None False)"
    by (simp add: example_env_def example_patch_def bob_def)
  from first_sight_inserts_chat_without_event [OF h1 h2 h3 h4 h5] h3 show ?thesis
    by (simp add: example_state_def coll_get_def coll_set_def chat_at_def)
qed

subsection \<open>C7: removing an administrator\<close>

text \<open>
  C7. For a \<^verbatim>\<open>remove\<close> operation on an admin path with thread id \<open>threadID\<close> and user
  id \<open>userID\<close>, handled by a client with no callback waiting, the job queue run to its
  end. The chat is the one cached under \<open>threadID\<close>, or, when there is none, the one
  built from what \<^verbatim>\<open>directThread\<close> answers, stored at a fresh address and cached under
  \<open>threadID\<close>. The user is the one cached under the id the query resolves to, or, when
  there is none, the one built from what \<^verbatim>\<open>user_info\<close> answers, which is then cached.
  \<open>userID\<close> is appended to the admin ids of that chat (appended, not removed), nothing
  else of the state changes, and exactly one \<^verbatim>\<open>chatAdminRemove\<close> event is emitted, with
  the chat so updated and that user.
\<close>

theorem admin_remove_appends_and_emits:
  assumes "op_kind d = ''remove''"
    and "matchAdminPath env (op_path d) = Some (threadID, userID)"
    and "jobs s = []"
    and "coll_get (cache_chats s) threadID = Some a \<and> chat_at s a = Some chat \<and> s1 = s
         \<or> coll_get (cache_chats s) threadID = None
           \<and> directThread env threadID = Some chatPayload
           \<and> chat = new_Chat env threadID chatPayload \<and> a = length (chat_heap s)
           \<and> s1 = s\<lparr>chat_heap := chat_heap s @ [chat],
                     cache_chats := coll_set threadID a (cache_chats s)\<rparr>"
    and "chat' = chat\<lparr>chat_adminUserIDs := chat_adminUserIDs chat @ [userID]\<rparr>"
    and "(if isID env userID then Some userID else getIdByUsername env userID) = Some uid"
    and "coll_get (cache_users s) uid = Some u \<and> users' = cache_users s
         \<or> coll_get (cache_users s) uid = None \<and> user_info env uid = Some userPayload
           \<and> u = new_User env userPayload \<and> users' = coll_set uid u (cache_users s)"
  shows "drain env (state_of (handle_op env d s))
           = s1\<lparr>chat_heap := (chat_heap s1)[a := chat'], cache_users := users',
                emitted := emitted s @ [ChatAdminRemove chat' u]\<rparr>
       \<and> coll_get (cache_chats (drain env (state_of (handle_op env d s)))) threadID = Some a
       \<and> chat_at (drain env (state_of (handle_op env d s))) a = Some chat'
       \<and> emitted (drain env (state_of (handle_op env d s))) = emitted s @ [ChatAdminRemove chat' u]"
proof -
  let ?s' = "store_chat a chat' s1"
  let ?s2 = "?s'\<lparr>cache_users := users'\<rparr>"
  from resolved_chat_cases [OF assms(4)]
  have rc: "resolved_chat env threadID s = Some (a, s1)"
    and c1: "chat_at s1 a = Some chat"
    and k1: "coll_get (cache_chats s1) threadID = Some a"
    and u1: "cache_users s1 = cache_users s" and e1: "emitted s1 = emitted s"
    by simp_all
  have us: "cache_users ?s' = cache_users s" using u1 by (simp add: store_chat_def)
  have ru: "resolved_user env userID ?s' = Some (u, ?s2)"
  proof -
    from assms(7) show ?thesis
    proof
      assume h: "coll_get (cache_users s) uid = Some u \<and> users' = cache_users s"
      then have "?s2 = ?s'\<lparr>cache_users := cache_users ?s'\<rparr>" by (simp only: us)
      then have "?s2 = ?s'" by (simp only: same_users)
      with h assms(6) us show ?thesis by (simp add: resolved_user_def)
    next
      assume "coll_get (cache_users s) uid = None \<and> user_info env uid = Some userPayload
           \<and> u = new_User env userPayload \<and> users' = coll_set uid u (cache_users s)"
      with assms(6) us show ?thesis by (simp add: resolved_user_def)
    qed
  qed
  have dr: "drain env (state_of (handle_op env d s)) = emit (ChatAdminRemove chat' u) ?s2"
    by (rule admin_remove_resolved [OF assms(1-3) rc c1 assms(5) ru])
  have st: "emit (ChatAdminRemove chat' u) ?s2
      = s1\<lparr>chat_heap := (chat_heap s1)[a := chat'], cache_users := users',
            emitted := emitted s @ [ChatAdminRemove chat' u]\<rparr>"
    using e1 by (simp add: emit_def store_chat_def)
  from c1 have "a < length (chat_heap s1)" by (simp add: chat_at_def split: if_splits)
  then have c2: "chat_at (s1\<lparr>chat_heap := (chat_heap s1)[a := chat'], cache_users := users',
            emitted := emitted s @ [ChatAdminRemove chat' u]\<rparr>) a = Some chat'"
    by (simp add: chat_at_def)
  from dr st c2 k1 show ?thesis by simp
qed

text \<open>
  The theorem on a chat and a user that are both cached, and on a chat and a user that
  are both fetched.
\<close>

theorem admin_remove_appends_and_emits_witness:
  "jobs example_state = []
   \<and> coll_get (cache_chats example_state) ''1'' = Some 0
   \<and> chat_at example_state 0 = Some example_chat
   \<and> coll_get (cache_users example_state) ''7'' = Some alice
   \<and> drain example_env (state_of (handle_op example_env demote example_state))
       = example_state
           \<lparr>chat_heap := [example_chat\<lparr>chat_adminUserIDs := [''7'']\<rparr>],
             cache_users := [(''7'', alice)],
             emitted := [ChatAdminRemove (example_chat\<lparr>chat_adminUserIDs := [''7'']\<rparr>) alice]\<rparr>
   \<and> coll_get (cache_chats example_state) ''2'' = None
   \<and> directThread example_env ''2'' = Some (JThread ''2'' (Some ''C'') (Some [bob]) None False)
   \<and> coll_get (cache_users example_state) ''8'' = None
   \<and> user_info example_env ''8'' = Some (JUser bob)
   \<and> drain example_env (state_of (handle_op example_env demote_bob example_state))
       = example_state
           \<lparr>chat_heap := [example_chat, chat_2\<lparr>chat_adminUserIDs := [''8'']\<rparr>],
             cache_users := [(''7'', alice), (''8'', bob)],
             cache_chats := [(''1'', 0), (''2'', 1)],
             emitted := [ChatAdminRemove (chat_2\<lparr>chat_adminUserIDs := [''8'']\<rparr>) bob]\<rparr>"
proof -
  have q: "jobs example_state = []" and e: "emitted example_state = []"
    and h: "chat_heap example_state = [example_chat]"
    and us: "cache_users example_state = [(''7'', alice)]"
    and cs: "cache_chats example_state = [(''1'', 0)]"
    by (simp_all add: example_state_def)
  have c1: "coll_get (cache_chats example_state) ''1'' = Some 0"
    and c2: "coll_get (cache_chats example_state) ''2'' = None"
    and u7: "coll_get (cache_users example_state) ''7'' = Some alice"
    and u8: "coll_get (cache_users example_state) ''8'' = None"
    by (simp_all add: coll_get_def cs us)
  have a0: "chat_at example_state 0 = Some example_chat" by (simp add: chat_at_def h)
  have d1: "op_kind demote = ''remove''"
      "matchAdminPath example_env (op_path demote) = Some (''1'', ''7'')"
    by (simp_all add: demote_def example_env_def)
  have d2: "op_kind demote_bob = ''remove''"
      "matchAdminPath example_env (op_path demote_bob) = Some (''2'', ''8'')"
    by (simp_all add: demote_bob_def example_env_def)
  have i: "(if isID example_env ''7'' then Some ''7'' else getIdByUsername example_env ''7'')
             = Some ''7''"
      "(if isID example_env ''8'' then Some ''8'' else getIdByUsername example_env ''8'')
             = Some ''8''"
    by (simp_all add: example_env_def)
  have f: "directThread example_env ''2'' = Some (JThread ''2'' (Some ''C'') (Some [bob]) None False)"
      "user_info example_env ''8'' = Some (JUser bob)"
    by (simp_all add: example_env_def)
  have n: "chat_2 = new_Chat example_env ''2'' (JThread ''2'' (Some ''C'') (Some [bob]) None False)"
      "bob = new_User example_env (JUser bob)"
    by (simp_all add: chat_2_def example_env_def example_patch_def bob_def)
  have cached: "drain example_env (state_of (handle_op example_env demote example_state))
       = example_state
           \<lparr>chat_heap := [example_chat\<lparr>chat_adminUserIDs := [''7'']\<rparr>],
             cache_users := [(''7'', alice)],
             emitted := [ChatAdminRemove (example_chat\<lparr>chat_adminUserIDs := [''7'']\<rparr>) alice]\<rparr>"
    using admin_remove_appends_and_emits [where env = example_env and d = demote
        and threadID = "''1''" and userID = "''7''" and s = example_state and a = 0
        and chat = example_chat and ?s1.0 = example_state
        and chat' = "example_chat\<lparr>chat_adminUserIDs := [''7'']\<rparr>"
        and uid = "''7''" and u = alice and users' = "[(''7'', alice)]", OF d1 q _ _ i(1)]
      c1 a0 u7 us
    by (simp add: h e example_chat_def)
  let ?s1 = "example_state\<lparr>chat_heap := chat_heap example_state @ [chat_2],
                cache_chats := coll_set ''2'' 1 (cache_chats example_state)\<rparr>"
  have hc: "coll_get (cache_chats example_state) ''2'' = Some 1
            \<and> chat_at example_state 1 = Some chat_2 \<and> ?s1 = example_state
         \<or> coll_get (cache_chats example_state) ''2'' = None
           \<and> directThread example_env ''2''
               = Some (JThread ''2'' (Some ''C'') (Some [bob]) None False)
           \<and> chat_2 = new_Chat example_env ''2''
                         (JThread ''2'' (Some ''C'') (Some [bob]) None False)
           \<and> 1 = length (chat_heap example_state)
           \<and> ?s1 = example_state\<lparr>chat_heap := chat_heap example_state @ [chat_2],
                     cache_chats := coll_set ''2'' 1 (cache_chats example_state)\<rparr>"
    using c2 f(1) n(1) by (simp add: h)
  have hu: "coll_get (cache_users example_state) ''8'' = Some bob
            \<and> [(''7'', alice), (''8'', bob)] = cache_users example_state
         \<or> coll_get (cache_users example_state) ''8'' = None
           \<and> user_info example_env ''8'' = Some (JUser bob)
           \<and> bob = new_User example_env (JUser bob)
           \<and> [(''7'', alice), (''8'', bob)] = coll_set ''8'' bob (cache_users example_state)"
    using u8 f(2) n(2) by (simp add: us coll_set_def)
  have fetched: "drain example_env (state_of (handle_op example_env demote_bob example_state))
       = example_state
           \<lparr>chat_heap := [example_chat, chat_2\<lparr>chat_adminUserIDs := [''8'']\<rparr>],
             cache_users := [(''7'', alice), (''8'', bob)],
             cache_chats := [(''1'', 0), (''2'', 1)],
             emitted := [ChatAdminRemove (chat_2\<lparr>chat_adminUserIDs := [''8'']\<rparr>) bob]\<rparr>"
    using admin_remove_appends_and_emits [where env = example_env and d = demote_bob
        and threadID = "''2''" and userID = "''8''" and s = example_state and a = 1
        and chat = chat_2 and chatPayload = "JThread ''2'' (Some ''C'') (Some [bob]) None False"
        and ?s1.0 = ?s1
        and chat' = "chat_2\<lparr>chat_adminUserIDs := [''8'']\<rparr>"
        and uid = "''8''" and u = bob and userPayload = "JUser bob"
        and users' = "[(''7'', alice), (''8'', bob)]", OF d2 q hc _ i(2) hu]
    by (simp add: h e cs coll_set_def chat_2_def)
  from q c1 a0 u7 cached c2 f u8 fetched show ?thesis by simp
qed

subsection \<open>C8: push notifications\<close>

text \<open>
  C8. For a push payload handled by a ready client: with category \<^verbatim>\<open>new_follower\<close> and a
  source user id that resolves, exactly one \<^verbatim>\<open>newFollower\<close> event with the resolved user
  is emitted (after \<^verbatim>\<open>rawFbns\<close>); with a category outside the four recognised ones,
  exactly one \<^verbatim>\<open>push\<close> event with the payload as it came is emitted, nothing is
  scheduled and no promise is rejected. The handler is an \<^verbatim>\<open>async\<close> function, total in
  the model: it does not throw.
\<close>

theorem push_new_follower_and_fallback:
  assumes "ready s" and "jobs s = []"
  shows "(pushCategory data = Some ''new_follower'' \<and> sourceUserId data = Some userID
            \<and> userID \<noteq> [] \<and> resolved_user env userID (emit (RawFbns data) s) = Some (u, s1)
          \<longrightarrow> drain env (handleFbnsReceive env data s) = emit (NewFollower u) s1
              \<and> emitted (drain env (handleFbnsReceive env data s))
                  = emitted s @ [RawFbns data, NewFollower u])
       \<and> (pushCategory data \<noteq> Some ''new_follower''
            \<and> pushCategory data \<noteq> Some ''private_user_follow_request''
            \<and> pushCategory data \<noteq> Some ''direct_v2_pending''
            \<and> pushCategory data \<noteq> Some ''live_broadcast''
          \<longrightarrow> handleFbnsReceive env data s = emit (Push data) (emit (RawFbns data) s)
              \<and> drain env (handleFbnsReceive env data s) = emit (Push data) (emit (RawFbns data) s)
              \<and> unhandled (handleFbnsReceive env data s) = unhandled s)"
proof (intro conjI impI)
  assume a: "pushCategory data = Some ''new_follower'' \<and> sourceUserId data = Some userID
            \<and> userID \<noteq> [] \<and> resolved_user env userID (emit (RawFbns data) s) = Some (u, s1)"
  then have r: "resolved_user env userID (emit (RawFbns data) s) = Some (u, s1)" by simp
  have q: "jobs (emit (RawFbns data) s) = []" using assms(2) by simp
  from resolved_user_frame(1) [OF r] q have q1: "jobs s1 = []" by simp
  have "handleFbnsReceive env data s
      = user_then (fetchUser env userID (emit (RawFbns data) s)) ThenNewFollower"
    using a assms(1) by (simp add: handleFbnsReceive_def truthy_def)
  then have "drain env (handleFbnsReceive env data s) = drain env (run_user_then u ThenNewFollower s1)"
    using drain_user_then [OF q r] by simp
  then show dr: "drain env (handleFbnsReceive env data s) = emit (NewFollower u) s1"
    using q1 by (simp add: run_user_then_def)
  show "emitted (drain env (handleFbnsReceive env data s)) = emitted s @ [RawFbns data, NewFollower u]"
    using resolved_user_frame(2) [OF r] by (simp add: dr emit_def)
next
  assume a: "pushCategory data \<noteq> Some ''new_follower''
            \<and> pushCategory data \<noteq> Some ''private_user_follow_request''
            \<and> pushCategory data \<noteq> Some ''direct_v2_pending''
            \<and> pushCategory data \<noteq> Some ''live_broadcast''"
  then show h: "handleFbnsReceive env data s = emit (Push data) (emit (RawFbns data) s)"
    using assms(1) by (simp add: handleFbnsReceive_def)
  show "drain env (handleFbnsReceive env data s) = emit (Push data) (emit (RawFbns data) s)"
    using assms(2) by (simp add: h)
  show "unhandled (handleFbnsReceive env data s) = unhandled s"
    by (simp add: h emit_def)
qed

theorem push_new_follower_and_fallback_witness:
  "ready example_state \<and> jobs example_state = []
   \<and> resolved_user example_env ''8'' (emit (RawFbns follower_push) example_state)
       = Some (bob, (emit (RawFbns follower_push) example_state)
                      \<lparr>cache_users := [(''7'', alice), (''8'', bob)]\<rparr>)
   \<and> emitted (drain example_env (handleFbnsReceive example_env follower_push example_state))
       = [RawFbns follower_push, NewFollower bob]
   \<and> handleFbnsReceive example_env odd_push example_state
       = emit (Push odd_push) (emit (RawFbns odd_push) example_state)"
proof -
  have h1: "ready example_state" and h2: "jobs example_state = []"
    by (simp_all add: example_state_def)
  have r: "resolved_user example_env ''8'' (emit (RawFbns follower_push) example_state)
       = Some (bob, (emit (RawFbns follower_push) example_state)
                      \<lparr>cache_users := [(''7'', alice), (''8'', bob)]\<rparr>)"
    by (simp add: resolved_user_def example_env_def emit_def example_state_def coll_get_def
        coll_set_def)
  have f: "pushCategory follower_push = Some ''new_follower''
           \<and> sourceUserId follower_push = Some ''8'' \<and> ''8'' \<noteq> []"
    by (simp add: follower_push_def)
  have o: "pushCategory odd_push \<noteq> Some ''new_follower''
            \<and> pushCategory odd_push \<noteq> Some ''private_user_follow_request''
            \<and> pushCategory odd_push \<noteq> Some ''direct_v2_pending''
            \<and> pushCategory odd_push \<noteq> Some ''live_broadcast''"
    by (simp add: odd_push_def)
  have e: "emitted example_state = []" by (simp add: example_state_def)
  from push_new_follower_and_fallback [OF h1 h2, of follower_push "''8''" example_env bob
      "(emit (RawFbns follower_push) example_state)\<lparr>cache_users := [(''7'', alice), (''8'', bob)]\<rparr>"]
    f r e
  have one: "emitted (drain example_env (handleFbnsReceive example_env follower_push example_state))
       = [RawFbns follower_push, NewFollower bob]"
    by simp
  from push_new_follower_and_fallback [OF h1 h2, of odd_push _ example_env] o
  have two: "handleFbnsReceive example_env odd_push example_state
       = emit (Push odd_push) (emit (RawFbns odd_push) example_state)"
    by simp
  from h1 h2 r one two show ?thesis by simp
qed

subsection \<open>C9: pending chats are cached chats\<close>

text \<open>
  C9. In every state the engine reaches from a new client, and across every single
  operation, the ids of the pending-chats cache are ids of the chats cache. The
  pending-chats cache changes in two places only, the thread loop of \<^verbatim>\<open>login\<close> and the
  refresh of the \<^verbatim>\<open>direct_v2_pending\<close> push; each stores the chat it has just built (the
  same address) in the chats cache under the same id.
\<close>

theorem pending_chats_are_cached_chats:
  "pending_subset (foldl (\<lambda>s act. step env act s) new_client acts)
   \<and> (pending_subset s \<longrightarrow> pending_subset (step env act s))
   \<and> ((\<forall>threads. act \<noteq> LoadThreads threads)
        \<and> (act = RunJob \<longrightarrow> (\<forall>actionId ts. jobs s \<noteq> PendingThreadsRequest actionId # ts))
      \<longrightarrow> cache_pendingChats (step env act s) = cache_pendingChats s)
   \<and> cache_pendingChats (pending_thread env thread s)
       = coll_set (thread_id env thread) (length (chat_heap s)) (cache_pendingChats s)
   \<and> cache_chats (pending_thread env thread s)
       = coll_set (thread_id env thread) (length (chat_heap s)) (cache_chats s)
   \<and> cache_chats (load_thread env thread s)
       = coll_set (thread_id env thread) (length (chat_heap s)) (cache_chats s)
   \<and> cache_pendingChats (load_thread env thread s)
       = (if chat_pending (new_Chat env (thread_id env thread) thread)
          then coll_set (thread_id env thread) (length (chat_heap s)) (cache_pendingChats s)
          else cache_pendingChats s)"
proof (intro conjI impI)
  show "pending_subset (foldl (\<lambda>s act. step env act s) new_client acts)"
    using pending_subset_new_client by (rule pending_subset_steps)
next
  assume "pending_subset s"
  then show "pending_subset (step env act s)" by (rule pending_subset_step)
next
  assume a: "(\<forall>threads. act \<noteq> LoadThreads threads)
        \<and> (act = RunJob \<longrightarrow> (\<forall>actionId ts. jobs s \<noteq> PendingThreadsRequest actionId # ts))"
  have "chats_grow s (step env act s)"
  proof (rule chats_grow_step)
    fix threads show "act \<noteq> LoadThreads threads" using a by blast
  next
    fix actionId ts assume "act = RunJob"
    with a show "jobs s \<noteq> PendingThreadsRequest actionId # ts" by blast
  qed
  then show "cache_pendingChats (step env act s) = cache_pendingChats s"
    by (simp add: chats_grow_def)
qed (simp_all add: pending_thread_def load_thread_def alloc_chat_def Let_def)

theorem pending_chats_are_cached_chats_witness:
  "pending_subset example_state
   \<and> pending_subset refreshing_state
   \<and> cache_pendingChats refreshing_state = [(''3'', 1)]
   \<and> cache_chats refreshing_state = [(''1'', 0), (''3'', 1)]
   \<and> pending_subset (step example_env (Deliver (FromFbns odd_push)) refreshing_state)
   \<and> cache_pendingChats (step example_env (Deliver (FromFbns odd_push)) refreshing_state)
       = [(''3'', 1)]
   \<and> cache_pendingChats (load_thread example_env pending_3 example_state) = [(''3'', 1)]
   \<and> cache_chats (load_thread example_env pending_3 example_state) = [(''1'', 0), (''3'', 1)]
   \<and> cache_pendingChats (load_thread example_env inbox_2 example_state) = []"
proof -
  have p0: "pending_subset example_state"
    by (simp add: pending_subset_def example_state_def coll_keys_def)
  let ?queued = "enqueue (PendingThreadsRequest ''3'') example_state"
  have "pending_subset ?queued"
    by (simp add: pending_subset_def example_state_def coll_keys_def enqueue_def)
  with pending_chats_are_cached_chats [where s = ?queued and env = example_env and act = RunJob]
  have p1: "pending_subset refreshing_state" by (simp add: refreshing_state_def)
  have n: "(\<forall>threads. Deliver (FromFbns odd_push) \<noteq> (LoadThreads threads :: json action))
        \<and> ((Deliver (FromFbns odd_push) :: json action) = RunJob \<longrightarrow>
             (\<forall>actionId ts. jobs refreshing_state \<noteq> PendingThreadsRequest actionId # ts))"
    by simp
  from pending_chats_are_cached_chats [where s = refreshing_state and env = example_env
      and act = "Deliver (FromFbns odd_push)"]
    p1 n refreshing_state_caches(1)
  have p2: "pending_subset (step example_env (Deliver (FromFbns odd_push)) refreshing_state)"
    and p3: "cache_pendingChats (step example_env (Deliver (FromFbns odd_push)) refreshing_state)
       = [(''3'', 1)]"
    by simp_all
  from pending_chats_are_cached_chats [where s = example_state and env = example_env
      and thread = pending_3]
  have l1: "cache_pendingChats (load_thread example_env pending_3 example_state) = [(''3'', 1)]"
    and l2: "cache_chats (load_thread example_env pending_3 example_state) = [(''1'', 0), (''3'', 1)]"
    by (simp_all add: pending_3_def example_env_def example_patch_def example_state_def coll_set_def)
  from pending_chats_are_cached_chats [where s = example_state and env = example_env
      and thread = inbox_2]
  have l3: "cache_pendingChats (load_thread example_env inbox_2 example_state) = []"
    by (simp add: inbox_2_def example_env_def example_patch_def example_state_def)
  from p0 p1 p2 p3 l1 l2 l3 refreshing_state_caches show ?thesis by simp
qed

subsection \<open>C10: fetchChat on a cached id\<close>

text \<open>
  C10. For a chat id present in the chat cache, \<^verbatim>\<open>fetchChat\<close> without \<^verbatim>\<open>force\<close> asks
  the network nothing and changes nothing: its promise is fulfilled with the cached chat
  object, the state is the one before the call, a second call gives the same, and
  awaiting the result leaves the state as it was.
\<close>

theorem fetchChat_cached_is_noop:
  assumes "coll_has (cache_chats s) chatID" and "jobs s = []"
  shows "\<exists>a. coll_get (cache_chats s) chatID = Some a
           \<and> fetchChat chatID False s = (ChatFulfilled a, s)
           \<and> fetchChat chatID False (snd (fetchChat chatID False s)) = (ChatFulfilled a, s)
           \<and> drain env (chat_then (fetchChat chatID False s) ThenReturnChat) = s"
proof -
  from assms(1) obtain a where a: "coll_get (cache_chats s) chatID = Some a"
    by (auto simp: coll_has_def coll_get_def)
  then have f: "fetchChat chatID False s = (ChatFulfilled a, s)"
    by (simp add: fetchChat_def)
  have "jobs (enqueue (ChatReady a ThenReturnChat) s) = [ChatReady a ThenReturnChat]"
    using assms(2) by simp
  then have "drain env (enqueue (ChatReady a ThenReturnChat) s)
      = drain env (run_task env (ChatReady a ThenReturnChat)
          ((enqueue (ChatReady a ThenReturnChat) s)\<lparr>jobs := []\<rparr>))"
    by (rule drain_step)
  also have "(enqueue (ChatReady a ThenReturnChat) s)\<lparr>jobs := []\<rparr> = s"
    using assms(2) by (simp add: enqueue_def)
  also have "run_task env (ChatReady a ThenReturnChat) s = s"
    by (simp add: run_task_def run_chat_then_def)
  also have "drain env s = s" using assms(2) by (rule drain_empty)
  finally show ?thesis using a f by (simp add: chat_then_def)
qed

theorem fetchChat_cached_is_noop_witness:
  "coll_has (cache_chats example_state) ''1'' \<and> jobs example_state = []
   \<and> fetchChat ''1'' False example_state = (ChatFulfilled 0, example_state)
   \<and> fetchChat ''1'' False (snd (fetchChat ''1'' False example_state))
       = (ChatFulfilled 0, example_state)
   \<and> drain example_env (chat_then (fetchChat ''1'' False example_state) ThenReturnChat)
       = example_state"
proof -
  have h1: "coll_has (cache_chats example_state) ''1''"
    by (simp add: example_state_def coll_has_def)
  have h2: "jobs example_state = []"
    by (simp add: example_state_def)
  have g: "coll_get (cache_chats example_state) ''1'' = Some 0"
    by (simp add: example_state_def coll_get_def)
  from fetchChat_cached_is_noop [OF h1 h2, of example_env] g h1 h2 show ?thesis
    by auto
qed

end
